theory Spec2Isabelle
  imports Main "HOL-Library.Sublist"
begin

section \<open>Python strings\<close>

text \<open>
  A Python \<open>str\<close> is a sequence of Unicode code points, and \<open>len\<close>, slicing,
  \<open>replace\<close>, \<open>split\<close> and \<open>strip\<close> all work on code points. A string is therefore
  modelled as a list of code points (natural numbers); \<open>lit\<close> turns an ASCII literal
  into such a list.
\<close>

type_synonym str = "nat list"

definition lit :: "string \<Rightarrow> str" where
  "lit s = map of_char s"

text \<open>\<open>s.replace(old, new)\<close> for one-character \<open>old\<close> and \<open>new\<close>.\<close>

definition replace_char :: "nat \<Rightarrow> nat \<Rightarrow> str \<Rightarrow> str" where
  "replace_char old new s = map (\<lambda>c. if c = old then new else c) s"

text \<open>\<open>x or ""\<close> for an optional string \<open>x\<close>: \<open>None\<close> and the empty string both give
  the empty string.\<close>

definition or_empty :: "str option \<Rightarrow> str" where
  "or_empty x = (case x of None \<Rightarrow> [] | Some s \<Rightarrow> s)"

text \<open>\<open>x or d\<close> for an optional string \<open>x\<close>: \<open>None\<close> and the empty string are falsy.\<close>

definition or_default :: "str option \<Rightarrow> str \<Rightarrow> str" where
  "or_default x d = (case x of None \<Rightarrow> d | Some s \<Rightarrow> if s = [] then d else s)"

text \<open>\<open>str.isspace\<close> of one code point: the 29 code points Python classifies as
  whitespace.\<close>

definition py_isspace :: "nat \<Rightarrow> bool" where
  "py_isspace c \<longleftrightarrow>
     (9 \<le> c \<and> c \<le> 13) \<or> (28 \<le> c \<and> c \<le> 32) \<or> c = 133 \<or> c = 160 \<or> c = 5760 \<or>
     (8192 \<le> c \<and> c \<le> 8202) \<or> c = 8232 \<or> c = 8233 \<or> c = 8239 \<or> c = 8287 \<or> c = 12288"

text \<open>\<open>strip\<close>: drop the leading and the trailing code points that satisfy \<open>P\<close>.\<close>

definition strip_by :: "(nat \<Rightarrow> bool) \<Rightarrow> str \<Rightarrow> str" where
  "strip_by P s = rev (dropWhile P (rev (dropWhile P s)))"

text \<open>\<open>s.strip()\<close> strips whitespace; \<open>s.strip(chars)\<close> strips the code points of
  \<open>chars\<close>.\<close>

definition py_strip :: "str \<Rightarrow> str" where
  "py_strip s = strip_by py_isspace s"

definition py_strip_chars :: "str \<Rightarrow> str \<Rightarrow> str" where
  "py_strip_chars chars s = strip_by (\<lambda>c. c \<in> set chars) s"

text \<open>\<open>s.split(sep)\<close> for a one-character separator: every occurrence splits, empty
  pieces are kept, and the empty string gives one empty piece.\<close>

fun split_on :: "nat \<Rightarrow> str \<Rightarrow> str list" where
  "split_on sep [] = [[]]"
| "split_on sep (c # cs) =
     (if c = sep then [] # split_on sep cs
      else (case split_on sep cs of
              [] \<Rightarrow> [[c]]
            | w # ws \<Rightarrow> (c # w) # ws))"

text \<open>\<open>sep.join(pieces)\<close> for a one-character separator.\<close>

fun join_on :: "nat \<Rightarrow> str list \<Rightarrow> str" where
  "join_on sep [] = []"
| "join_on sep [x] = x"
| "join_on sep (x # y # ys) = x @ sep # join_on sep (y # ys)"

text \<open>\<open>str(n)\<close> for a Python integer: the decimal digits, after a minus sign when
  negative.\<close>

fun digits :: "nat \<Rightarrow> str" where
  "digits n = (if n < 10 then [48 + n] else digits (n div 10) @ [48 + n mod 10])"

definition py_str_int :: "int \<Rightarrow> str" where
  "py_str_int k = (if k < 0 then 45 # digits (nat (- k)) else digits (nat k))"

text \<open>\<open>xs[:k]\<close> for a Python integer \<open>k\<close>: a negative bound counts from the end.\<close>

definition py_slice_to :: "int \<Rightarrow> 'a list \<Rightarrow> 'a list" where
  "py_slice_to k xs =
     (if 0 \<le> k then take (nat k) xs else take (length xs - nat (- k)) xs)"

section \<open>Errors\<close>

text \<open>Every exception the code raises or lets through is a value of this type. An
  exception raised by the remote service (network, authentication, quota, not found)
  is \<open>RemoteError\<close> with the service's message.\<close>

datatype error =
    RuntimeError str
  | ValueError str
  | TypeError
  | IndexError
  | RemoteError str

section \<open>Query engine (app.py, query.py)\<close>

text \<open>\<open>get_client\<close>: the credential is read from the environment variable
  \<open>GEMINI_API_KEY\<close>; an unset or empty variable raises.\<close>

definition get_client :: "str option \<Rightarrow> error + str" where
  "get_client api_key =
     (case api_key of
        None \<Rightarrow> Inl (RuntimeError (lit ''GEMINI_API_KEY env var is not set''))
      | Some k \<Rightarrow> if k = [] then Inl (RuntimeError (lit ''GEMINI_API_KEY env var is not set''))
                  else Inr k)"

text \<open>query.py, \<open>build_metadata_filter\<close>. \<open>not source_type\<close> holds for \<open>None\<close> and for
  the empty string.\<close>

definition build_metadata_filter :: "str option \<Rightarrow> str option" where
  "build_metadata_filter source_type =
     (case source_type of
        None \<Rightarrow> None
      | Some s \<Rightarrow> if s = [] then None
                  else Some (lit ''source_type='' @ [34] @ s @ [34]))"

text \<open>The \<open>types.FileSearch\<close> object of a request.\<close>

record file_search =
  file_search_store_names :: "str list"
  metadata_filter :: "str option"

text \<open>app.py, lines 26 to 33 of \<open>ask_question\<close> and lines 103 to 109 of
  \<open>suggest_questions\<close>: the same code builds the search tool of the request.\<close>

definition app_file_search :: "str \<Rightarrow> str option \<Rightarrow> file_search" where
  "app_file_search store_name source_type =
     (let metadata_filter =
            (case source_type of
               None \<Rightarrow> None
             | Some s \<Rightarrow> if s = [] then None
                         else Some (lit ''source_type='' @ [34] @ s @ [34]))
      in \<lparr>file_search_store_names = [store_name], metadata_filter = metadata_filter\<rparr>)"

text \<open>query.py, lines 44 to 49 of \<open>main\<close>.\<close>

definition query_file_search :: "str \<Rightarrow> str option \<Rightarrow> file_search" where
  "query_file_search store_name source_type =
     \<lparr>file_search_store_names = [store_name],
      metadata_filter = build_metadata_filter source_type\<rparr>"

text \<open>The response of the generation call, as far as the code reads it. Every field
  the SDK declares optional is an option.\<close>

record retrieved_context =
  ctx_title :: "str option"
  ctx_text :: "str option"

record grounding_chunk =
  retrieved_context :: "retrieved_context option"

record grounding_metadata =
  grounding_chunks :: "grounding_chunk list option"

record candidate =
  grounding_metadata :: "grounding_metadata option"

record response =
  resp_text :: "str option"
  candidates :: "candidate list option"

record citation =
  cite_title :: str
  cite_text :: str

text \<open>app.py, lines 53 and 54: newlines are replaced first, then the text is cut.\<close>

definition snippet_app :: "str option \<Rightarrow> str" where
  "snippet_app t =
     (let text = replace_char 10 32 (or_empty t)
      in take 400 text @ (if length text > 400 then lit ''...'' else []))"

text \<open>query.py, lines 78 and 79: the text is cut first, then newlines are replaced.\<close>

definition snippet_query :: "str option \<Rightarrow> str" where
  "snippet_query t =
     (let text = or_empty t
      in replace_char 10 32 (take 400 text) @ (if length text > 400 then lit ''...'' else []))"

text \<open>app.py, lines 47 to 55: the loop over the grounding chunks. A chunk without a
  retrieved context is skipped.\<close>

fun citations_of :: "grounding_chunk list \<Rightarrow> citation list" where
  "citations_of [] = []"
| "citations_of (chunk # chunks) =
     (case retrieved_context chunk of
        None \<Rightarrow> citations_of chunks
      | Some ctx \<Rightarrow>
          \<lparr>cite_title = or_default (ctx_title ctx) (lit ''Unknown Source''),
           cite_text = snippet_app (ctx_text ctx)\<rparr> # citations_of chunks)"

text \<open>The generation call of the remote service: model name, contents and search tool
  in, a response or an exception out.\<close>

type_synonym generate_content = "str \<Rightarrow> str \<Rightarrow> file_search \<Rightarrow> error + response"

text \<open>app.py, \<open>ask_question\<close>. \<open>response.candidates[0]\<close> raises on a missing or empty
  candidate list; \<open>getattr(gm, "grounding_chunks", [])\<close> gives \<open>None\<close> when the
  attribute is present and unset, and the loop over \<open>None\<close> raises.\<close>

definition ask_question ::
  "str option \<Rightarrow> generate_content \<Rightarrow> str \<Rightarrow> str \<Rightarrow> str option \<Rightarrow> error + (str \<times> citation list)" where
  "ask_question api_key gen question store_name source_type =
     (case get_client api_key of
        Inl e \<Rightarrow> Inl e
      | Inr _ \<Rightarrow>
          (case gen (lit ''gemini-2.5-flash'') question (app_file_search store_name source_type) of
             Inl e \<Rightarrow> Inl e
           | Inr resp \<Rightarrow>
               (let answer = or_empty (resp_text resp) in
                case candidates resp of
                  None \<Rightarrow> Inl TypeError
                | Some [] \<Rightarrow> Inl IndexError
                | Some (cand # _) \<Rightarrow>
                    (case grounding_metadata cand of
                       None \<Rightarrow> Inr (answer, [])
                     | Some gm \<Rightarrow>
                         (case grounding_chunks gm of
                            None \<Rightarrow> Inl TypeError
                          | Some chunks \<Rightarrow> Inr (answer, citations_of chunks))))))"

text \<open>app.py, lines 122 to 130 of \<open>suggest_questions\<close>: the parsing of the response
  text. A line is kept when \<open>q.strip()\<close> is not empty; it is trimmed of the characters
  space, hyphen, asterisk, newline, carriage return and tab.\<close>

definition parse_suggestions :: "str \<Rightarrow> int \<Rightarrow> str list" where
  "parse_suggestions text count =
     (let questions = map (py_strip_chars [32, 45, 42, 10, 13, 9])
                          (filter (\<lambda>q. py_strip q \<noteq> []) (split_on 10 text))
      in py_slice_to count (filter (\<lambda>q. length q > 10) questions))"

text \<open>app.py, \<open>suggest_questions\<close>. The prompt embeds the decimal form of \<open>count\<close>.\<close>

definition suggest_questions ::
  "str option \<Rightarrow> generate_content \<Rightarrow> str \<Rightarrow> str option \<Rightarrow> int \<Rightarrow> error + str list" where
  "suggest_questions api_key gen store_name source_type count =
     (if store_name = [] then Inl (ValueError (lit ''Store name is required to fetch suggestions.''))
      else
        (case get_client api_key of
           Inl e \<Rightarrow> Inl e
         | Inr _ \<Rightarrow>
             (let prompt = lit ''You are a helpful tutor. Propose '' @ py_str_int count @
                    lit '' specific, thought-provoking questions someone should explore '' @
                    lit ''after studying the uploaded PDFs. Each question must be grounded in the '' @
                    lit ''documents and include enough context to understand what to look for.''
              in case gen (lit ''gemini-2.5-flash'') prompt (app_file_search store_name source_type) of
                   Inl e \<Rightarrow> Inl e
                 | Inr resp \<Rightarrow> Inr (parse_suggestions (or_empty (resp_text resp)) count))))"

section \<open>Ingestion (ingest_pdfs.py)\<close>

subsection \<open>Resource namer\<close>

text \<open>\<open>str.isalnum\<close> and \<open>str.lower\<close> read Python's Unicode database, which is not part
  of the repository: they are parameters of the model. \<open>lower\<close> acts on the whole string,
  since a code point may lower to more than one.\<close>

record unicode_db =
  isalnum :: "nat \<Rightarrow> bool"
  lower :: "str \<Rightarrow> str"

text \<open>\<open>file_resource_name\<close>; \<open>hex\<close> is \<open>uuid.uuid4().hex\<close>, the 32 hexadecimal digits
  of a random UUID.\<close>

definition file_resource_name :: "unicode_db \<Rightarrow> str \<Rightarrow> str \<Rightarrow> str" where
  "file_resource_name db hex val =
     (let slug = py_strip_chars [45]
                   (map (\<lambda>c. if isalnum db c then c else 45) (py_strip (lower db val)));
          slug = (if slug = [] then lit ''file'' else slug);
          suffix = take 8 hex;
          max_base = max 1 (40 - int (length suffix) - 1);
          slug = (if py_slice_to max_base slug = [] then lit ''file''
                  else py_slice_to max_base slug)
      in slug @ [45] @ suffix)"

text \<open>The two tables on the code points below 256 (Latin-1), as Python has them there:
  the alphanumeric code points are the ASCII digits and letters, the ordinal indicators
  170 and 186, the superscripts 178, 179 and 185, the micro sign 181, the fractions 188
  to 190 and the accented letters 192 to 255 without the signs 215 and 247; lowering
  adds 32 to the upper-case letters. The instance is used on strings of that range
  only.\<close>

definition latin1_isalnum :: "nat \<Rightarrow> bool" where
  "latin1_isalnum c \<longleftrightarrow>
     (48 \<le> c \<and> c \<le> 57) \<or> (65 \<le> c \<and> c \<le> 90) \<or> (97 \<le> c \<and> c \<le> 122) \<or>
     c = 170 \<or> c = 178 \<or> c = 179 \<or> c = 181 \<or> c = 185 \<or> c = 186 \<or>
     (188 \<le> c \<and> c \<le> 190) \<or> (192 \<le> c \<and> c \<le> 214) \<or> (216 \<le> c \<and> c \<le> 246) \<or>
     (248 \<le> c \<and> c \<le> 255)"

definition latin1_lower :: "nat \<Rightarrow> nat" where
  "latin1_lower c =
     (if (65 \<le> c \<and> c \<le> 90) \<or> (192 \<le> c \<and> c \<le> 214) \<or> (216 \<le> c \<and> c \<le> 222)
      then c + 32 else c)"

definition latin1 :: unicode_db where
  "latin1 = \<lparr>isalnum = latin1_isalnum, lower = map latin1_lower\<rparr>"

text \<open>The same tables with the code point 978 added (U+03D2, GREEK UPSILON WITH HOOK
  SYMBOL): an upper-case letter that Python classifies as alphanumeric and that has no
  lower-case form, so that \<open>str.lower\<close> leaves it unchanged.\<close>

definition latin1_upsilon :: unicode_db where
  "latin1_upsilon = \<lparr>isalnum = (\<lambda>c. latin1_isalnum c \<or> c = 978), lower = map latin1_lower\<rparr>"

text \<open>The slug of lines 40 to 43 of \<open>file_resource_name\<close>, before the placeholder is
  substituted.\<close>

definition slug_of :: "unicode_db \<Rightarrow> str \<Rightarrow> str" where
  "slug_of db val =
     py_strip_chars [45] (map (\<lambda>c. if isalnum db c then c else 45) (py_strip (lower db val)))"

text \<open>The character set the specification requires of a resource name: lower-case
  ASCII letters, digits and the hyphen.\<close>

definition spec_resource_char :: "nat \<Rightarrow> bool" where
  "spec_resource_char c \<longleftrightarrow> (48 \<le> c \<and> c \<le> 57) \<or> (97 \<le> c \<and> c \<le> 122) \<or> c = 45"

text \<open>A hexadecimal digit as \<open>uuid4().hex\<close> prints it.\<close>

definition hex_digit :: "nat \<Rightarrow> bool" where
  "hex_digit c \<longleftrightarrow> (48 \<le> c \<and> c \<le> 57) \<or> (97 \<le> c \<and> c \<le> 102)"

subsection \<open>The remote service\<close>

text \<open>The objects the SDK returns, as far as the code reads them. An unset \<open>done\<close>
  flag is falsy, like \<open>False\<close>.\<close>

record store =
  store_name :: str

record uploaded_file =
  file_name :: str

record operation =
  op_name :: str
  op_done :: bool
  op_error :: "str option"

text \<open>The remote service is a parameter: each method takes the arguments the code
  passes and the state of the service, and returns the object or the exception raised
  together with the new state.\<close>

record 'r service =
  stores_get :: "str \<Rightarrow> 'r \<Rightarrow> (error + store) \<times> 'r"
  stores_create :: "str \<Rightarrow> 'r \<Rightarrow> (error + store) \<times> 'r"
  files_upload :: "str \<Rightarrow> str \<Rightarrow> str \<Rightarrow> 'r \<Rightarrow> (error + uploaded_file) \<times> 'r"
  import_file :: "str \<Rightarrow> str \<Rightarrow> (str \<times> str) list \<Rightarrow> 'r \<Rightarrow> (error + operation) \<times> 'r"
  operations_get :: "operation \<Rightarrow> 'r \<Rightarrow> (error + operation) \<times> 'r"

text \<open>The calls made so far are recorded beside the state of the service, each with
  its arguments: \<open>file_search_stores.get(name)\<close>, \<open>file_search_stores.create(display_name)\<close>,
  \<open>files.upload(file, name, display_name)\<close>,
  \<open>file_search_stores.import_file(file_search_store_name, file_name, custom_metadata)\<close>
  and \<open>operations.get(op)\<close>.\<close>

datatype call =
    StoresGet str
  | StoresCreate str
  | FilesUpload str str str
  | ImportFile str str "(str \<times> str) list"
  | OperationsGet operation

record 'r world =
  remote :: 'r
  calls :: "call list"

definition after_call :: "'r world \<Rightarrow> call \<Rightarrow> 'r \<Rightarrow> 'r world" where
  "after_call w c r = \<lparr>remote = r, calls = calls w @ [c]\<rparr>"

text \<open>The methods of the client. Each one passes its arguments to the service and
  records the call with the same arguments, so that the record shows what the service
  was given.\<close>

definition client_stores_get ::
  "'r service \<Rightarrow> str \<Rightarrow> 'r world \<Rightarrow> (error + store) \<times> 'r world" where
  "client_stores_get sv n w =
     (case stores_get sv n (remote w) of (res, r) \<Rightarrow> (res, after_call w (StoresGet n) r))"

definition client_stores_create ::
  "'r service \<Rightarrow> str \<Rightarrow> 'r world \<Rightarrow> (error + store) \<times> 'r world" where
  "client_stores_create sv d w =
     (case stores_create sv d (remote w) of (res, r) \<Rightarrow> (res, after_call w (StoresCreate d) r))"

definition client_files_upload ::
  "'r service \<Rightarrow> str \<Rightarrow> str \<Rightarrow> str \<Rightarrow> 'r world \<Rightarrow> (error + uploaded_file) \<times> 'r world" where
  "client_files_upload sv path n d w =
     (case files_upload sv path n d (remote w) of
        (res, r) \<Rightarrow> (res, after_call w (FilesUpload path n d) r))"

definition client_import_file ::
  "'r service \<Rightarrow> str \<Rightarrow> str \<Rightarrow> (str \<times> str) list \<Rightarrow> 'r world \<Rightarrow> (error + operation) \<times> 'r world" where
  "client_import_file sv s f m w =
     (case import_file sv s f m (remote w) of
        (res, r) \<Rightarrow> (res, after_call w (ImportFile s f m) r))"

definition client_operations_get ::
  "'r service \<Rightarrow> operation \<Rightarrow> 'r world \<Rightarrow> (error + operation) \<times> 'r world" where
  "client_operations_get sv op w =
     (case operations_get sv op (remote w) of
        (res, r) \<Rightarrow> (res, after_call w (OperationsGet op) r))"

subsection \<open>Operation waiter\<close>

text \<open>\<open>wait_for_operation\<close>: the loop has no bound, so the function is partial and
  \<open>None\<close> stands for a wait that never ends. The five-second sleep between two polls
  is not modelled. An exception of \<open>operations.get\<close> leaves the loop.\<close>

partial_function (option) wait_for_operation ::
  "'r service \<Rightarrow> operation \<Rightarrow> 'r world \<Rightarrow> ((error + operation) \<times> 'r world) option" where
  "wait_for_operation sv op w =
     (if op_done op then Some (Inr op, w)
      else (case client_operations_get sv op w of
              (Inl e, w1) \<Rightarrow> Some (Inl e, w1)
            | (Inr op', w1) \<Rightarrow> wait_for_operation sv op' w1))"

text \<open>The polls of a wait, read off the service: \<open>poll_steps sv op w op' w'\<close> holds when
  polling starts with the operation \<open>op\<close> in the state \<open>w\<close> and, after zero or more
  polls of operations that are not complete, each answered by the service with the
  next operation, the operation \<open>op'\<close> is at hand in the state \<open>w'\<close>.\<close>

inductive poll_steps ::
  "'r service \<Rightarrow> operation \<Rightarrow> 'r world \<Rightarrow> operation \<Rightarrow> 'r world \<Rightarrow> bool" for sv where
  poll_none: "poll_steps sv op w op w"
| poll_more: "\<not> op_done op \<Longrightarrow> operations_get sv op (remote w) = (Inr op1, r) \<Longrightarrow>
     poll_steps sv op1 \<lparr>remote = r, calls = calls w @ [OperationsGet op]\<rparr> op' w' \<Longrightarrow>
     poll_steps sv op w op' w'"

subsection \<open>Store resolver\<close>

text \<open>\<open>get_or_create_store\<close>: \<open>None\<close> and the empty string are falsy and create a
  store.\<close>

definition get_or_create_store ::
  "'r service \<Rightarrow> str option \<Rightarrow> str \<Rightarrow> 'r world \<Rightarrow> (error + store) \<times> 'r world" where
  "get_or_create_store sv name display_name w =
     (case (if name = Some [] then None else name) of
        Some n \<Rightarrow> client_stores_get sv n w
      | None \<Rightarrow> client_stores_create sv display_name w)"

subsection \<open>Ingestion orchestrator\<close>

text \<open>A \<open>Path\<close> of the directory listing: \<open>str(pdf_path)\<close>, \<open>pdf_path.name\<close> and
  \<open>pdf_path.stem\<close>.\<close>

record pdf_path =
  path_str :: str
  path_name :: str
  path_stem :: str

text \<open>What \<open>ingest_pdfs\<close> reads from its environment: the credential, the Unicode
  tables, the random UUID drawn for the file with a given index, the listing
  \<open>list(Path(folder).glob("*.pdf"))\<close> of a folder, and the remote service.\<close>

record 'r env =
  api_key :: "str option"
  ucd :: unicode_db
  uuid4_hex :: "nat \<Rightarrow> str"
  glob_pdf :: "str \<Rightarrow> pdf_path list"
  svc :: "'r service"

text \<open>The metadata list of lines 76 to 79.\<close>

definition book_metadata :: "str \<Rightarrow> (str \<times> str) list" where
  "book_metadata book_title =
     [(lit ''source_type'', lit ''book''), (lit ''book_title'', book_title)]"

text \<open>Lines 65 to 74: the title is the stem of the file name, and the file is uploaded
  under the name the resource namer gives.\<close>

definition upload_pdf ::
  "'r env \<Rightarrow> nat \<Rightarrow> pdf_path \<Rightarrow> 'r world \<Rightarrow> (error + uploaded_file) \<times> 'r world" where
  "upload_pdf env idx pdf w =
     (let book_title = path_stem pdf;
          name = file_resource_name (ucd env) (uuid4_hex env idx) book_title
      in client_files_upload (svc env) (path_str pdf) name book_title w)"

text \<open>Lines 76 to 87: the import of the uploaded file into the store is submitted with
  the metadata.\<close>

definition import_pdf ::
  "'r env \<Rightarrow> store \<Rightarrow> pdf_path \<Rightarrow> uploaded_file \<Rightarrow> 'r world \<Rightarrow> (error + operation) \<times> 'r world" where
  "import_pdf env st pdf uploaded w =
     (let metadata = book_metadata (path_stem pdf)
      in client_import_file (svc env) (store_name st) (file_name uploaded) metadata w)"

text \<open>The body of the loop of \<open>ingest_pdfs\<close>, lines 65 to 90, for the file with index
  \<open>idx\<close>. An exception of the upload, of the import submission or of the wait leaves
  the function; the operation returned by the wait is not looked at.\<close>

definition ingest_file ::
  "'r env \<Rightarrow> store \<Rightarrow> nat \<Rightarrow> pdf_path \<Rightarrow> 'r world \<Rightarrow> ((error + unit) \<times> 'r world) option" where
  "ingest_file env st idx pdf w =
     (case upload_pdf env idx pdf w of
        (Inl e, w1) \<Rightarrow> Some (Inl e, w1)
      | (Inr uploaded, w1) \<Rightarrow>
          (case import_pdf env st pdf uploaded w1 of
             (Inl e, w2) \<Rightarrow> Some (Inl e, w2)
           | (Inr op, w2) \<Rightarrow>
               (case wait_for_operation (svc env) op w2 of
                  None \<Rightarrow> None
                | Some (Inl e, w3) \<Rightarrow> Some (Inl e, w3)
                | Some (Inr _, w3) \<Rightarrow> Some (Inr (), w3))))"

text \<open>The loop of line 64, \<open>enumerate(pdf_files, start=1)\<close>.\<close>

fun ingest_loop ::
  "'r env \<Rightarrow> store \<Rightarrow> nat \<Rightarrow> pdf_path list \<Rightarrow> 'r world \<Rightarrow> ((error + unit) \<times> 'r world) option" where
  "ingest_loop env st idx [] w = Some (Inr (), w)"
| "ingest_loop env st idx (pdf # pdfs) w =
     (case ingest_file env st idx pdf w of
        None \<Rightarrow> None
      | Some (Inl e, w') \<Rightarrow> Some (Inl e, w')
      | Some (Inr _, w') \<Rightarrow> ingest_loop env st (Suc idx) pdfs w')"

text \<open>\<open>ingest_pdfs\<close>. The value returned is \<open>None\<close> (the bare \<open>return\<close> of line 62) or
  the name of the store (line 92).\<close>

definition ingest_pdfs ::
  "'r env \<Rightarrow> str \<Rightarrow> str option \<Rightarrow> str \<Rightarrow> 'r world \<Rightarrow> ((error + str option) \<times> 'r world) option" where
  "ingest_pdfs env folder name display_name w =
     (case get_client (api_key env) of
        Inl e \<Rightarrow> Some (Inl e, w)
      | Inr _ \<Rightarrow>
          (case get_or_create_store (svc env) name display_name w of
             (Inl e, w1) \<Rightarrow> Some (Inl e, w1)
           | (Inr st, w1) \<Rightarrow>
               (let pdf_files = glob_pdf env folder
                in if pdf_files = [] then Some (Inr None, w1)
                   else (case ingest_loop env st 1 pdf_files w1 of
                           None \<Rightarrow> None
                         | Some (Inl e, w2) \<Rightarrow> Some (Inl e, w2)
                         | Some (Inr _, w2) \<Rightarrow> Some (Inr (Some (store_name st)), w2)))))"

subsection \<open>Reading the record of calls\<close>

text \<open>The store name and the metadata of every import submission in a list of calls,
  and the store resolutions in it.\<close>

fun import_args :: "call list \<Rightarrow> (str \<times> (str \<times> str) list) list" where
  "import_args [] = []"
| "import_args (ImportFile s f m # cs) = (s, m) # import_args cs"
| "import_args (_ # cs) = import_args cs"

fun resolutions :: "call list \<Rightarrow> call list" where
  "resolutions [] = []"
| "resolutions (StoresGet n # cs) = StoresGet n # resolutions cs"
| "resolutions (StoresCreate d # cs) = StoresCreate d # resolutions cs"
| "resolutions (_ # cs) = resolutions cs"

fun polls :: "call list \<Rightarrow> bool" where
  "polls [] = True"
| "polls (OperationsGet _ # cs) = polls cs"
| "polls (_ # cs) = False"

subsection \<open>A service for examples\<close>

text \<open>A service whose state counts the files uploaded. It knows one store; it fails
  the upload, the import submission or the poll when the count is in \<open>bad_upload\<close>,
  \<open>bad_import\<close> or \<open>bad_poll\<close>; it completes an import at the first poll, with the
  failure status \<open>err\<close>.\<close>

record faults =
  bad_upload :: "nat list"
  bad_import :: "nat list"
  bad_poll :: "nat list"
  err :: "str option"

definition no_faults :: faults where
  "no_faults = \<lparr>bad_upload = [], bad_import = [], bad_poll = [], err = None\<rparr>"

definition example_service :: "faults \<Rightarrow> nat service" where
  "example_service fl =
     \<lparr>stores_get = (\<lambda>n r. if n = lit ''stores/s1''
                           then (Inr \<lparr>store_name = n\<rparr>, r)
                           else (Inl (RemoteError (lit ''not found'')), r)),
      stores_create = (\<lambda>d r. (Inr \<lparr>store_name = lit ''stores/s2''\<rparr>, r)),
      files_upload = (\<lambda>path n d r. if r \<in> set (bad_upload fl)
                                    then (Inl (RemoteError (lit ''upload failed'')), r)
                                    else (Inr \<lparr>file_name = lit ''files/'' @ n\<rparr>, Suc r)),
      import_file = (\<lambda>s f m r. if r \<in> set (bad_import fl)
                                 then (Inl (RemoteError (lit ''import refused'')), r)
                                 else (Inr \<lparr>op_name = lit ''op'', op_done = False, op_error = None\<rparr>, r)),
      operations_get = (\<lambda>op r. if r \<in> set (bad_poll fl)
                                then (Inl (RemoteError (lit ''poll failed'')), r)
                                else (Inr (op\<lparr>op_done := True, op_error := err fl\<rparr>), r))\<rparr>"

definition example_env :: "pdf_path list \<Rightarrow> faults \<Rightarrow> nat env" where
  "example_env pdfs fl =
     \<lparr>api_key = Some (lit ''key''),
      ucd = latin1,
      uuid4_hex = (\<lambda>i. lit ''520faea5d184416281b4809701a5177e''),
      glob_pdf = (\<lambda>folder. pdfs),
      svc = example_service fl\<rparr>"

definition pdf_a :: pdf_path where
  "pdf_a = \<lparr>path_str = lit ''d/a.pdf'', path_name = lit ''a.pdf'', path_stem = lit ''a''\<rparr>"

definition pdf_b :: pdf_path where
  "pdf_b = \<lparr>path_str = lit ''d/b.pdf'', path_name = lit ''b.pdf'', path_stem = lit ''b''\<rparr>"

definition world0 :: "nat world" where
  "world0 = \<lparr>remote = 0, calls = []\<rparr>"

text \<open>A service that answers the first poll of an operation with the operation as it
  is, not yet complete, and the second poll with the operation completed with the
  failure status \<open>e\<close>; its state counts the polls answered as not complete.\<close>

definition slow_service :: "str option \<Rightarrow> nat service" where
  "slow_service e =
     (example_service no_faults)
       \<lparr>operations_get := (\<lambda>op r. if r = 0 then (Inr op, Suc r)
                                  else (Inr (op\<lparr>op_done := True, op_error := e\<rparr>), r))\<rparr>"

text \<open>A generation call for examples: it raises, and the message is the metadata filter
  of the request it was given.\<close>

definition echo_filter :: generate_content where
  "echo_filter model contents fs =
     Inl (RemoteError (case metadata_filter fs of None \<Rightarrow> lit ''no filter'' | Some f \<Rightarrow> f))"

text \<open>The calls the ingestion of \<open>pdf_a\<close> and \<open>pdf_b\<close> makes with the example service,
  into the store it creates.\<close>

definition upload_a :: call where
  "upload_a = FilesUpload (lit ''d/a.pdf'') (lit ''a-520faea5'') (lit ''a'')"

definition import_a :: call where
  "import_a = ImportFile (lit ''stores/s2'') (lit ''files/'' @ lit ''a-520faea5'')
     [(lit ''source_type'', lit ''book''), (lit ''book_title'', lit ''a'')]"

definition upload_b :: call where
  "upload_b = FilesUpload (lit ''d/b.pdf'') (lit ''b-520faea5'') (lit ''b'')"

definition import_b :: call where
  "import_b = ImportFile (lit ''stores/s2'') (lit ''files/'' @ lit ''b-520faea5'')
     [(lit ''source_type'', lit ''book''), (lit ''book_title'', lit ''b'')]"

definition poll_op :: call where
  "poll_op = OperationsGet \<lparr>op_name = lit ''op'', op_done = False, op_error = None\<rparr>"

section \<open>Properties of the query engine\<close>

subsection \<open>String helpers\<close>

lemma lit_dots: "lit ''...'' = [46, 46, 46]"
  by (simp add: lit_def)

lemma length_replace_char: "length (replace_char a b s) = length s"
  by (simp add: replace_char_def)

lemma take_replace_char: "take n (replace_char a b s) = replace_char a b (take n s)"
  by (simp add: replace_char_def take_map)

lemma replace_char_absent: "a \<notin> set s \<Longrightarrow> replace_char a b s = s"
  by (induction s) (auto simp: replace_char_def)

lemma replace_char_removes: "a \<noteq> b \<Longrightarrow> a \<notin> set (replace_char a b s)"
  by (auto simp: replace_char_def)

lemma set_py_slice_to: "set (py_slice_to k xs) \<subseteq> set xs"
  by (auto simp: py_slice_to_def dest: in_set_takeD)

lemma subseq_py_slice_to: "subseq (py_slice_to k xs) xs"
  by (simp add: py_slice_to_def prefix_imp_subseq take_is_prefix)

lemma length_py_slice_to: "0 \<le> k \<Longrightarrow> length (py_slice_to k xs) \<le> nat k"
  by (simp add: py_slice_to_def)

lemma subseq_map_filter: "subseq (map f (filter P xs)) (map f xs)"
  by (simp add: subseq_map)

lemma strip_by_decomp: "\<exists>zs. dropWhile P s = strip_by P s @ zs"
proof -
  have "rev (dropWhile P s) = takeWhile P (rev (dropWhile P s)) @ dropWhile P (rev (dropWhile P s))"
    by simp
  then have "dropWhile P s =
      rev (dropWhile P (rev (dropWhile P s))) @ rev (takeWhile P (rev (dropWhile P s)))"
    by (metis rev_append rev_rev_ident)
  then show ?thesis
    unfolding strip_by_def by blast
qed

lemma strip_by_hd: "strip_by P s \<noteq> [] \<Longrightarrow> \<not> P (hd (strip_by P s))"
proof -
  assume nonempty: "strip_by P s \<noteq> []"
  obtain zs where d: "dropWhile P s = strip_by P s @ zs"
    using strip_by_decomp by blast
  with nonempty have "dropWhile P s \<noteq> []" and "hd (dropWhile P s) = hd (strip_by P s)"
    by simp_all
  then show ?thesis
    using hd_dropWhile [of P s] by simp
qed

lemma set_strip_by: "set (strip_by P s) \<subseteq> set s"
  by (auto simp: strip_by_def dest!: set_dropWhileD)

lemma split_on_nonempty: "split_on sep s \<noteq> []"
  by (induction s) (auto split: list.splits)

lemma join_on_Cons: "join_on sep ((c # w) # ws) = c # join_on sep (w # ws)"
  by (cases ws) simp_all

lemma join_on_split_on: "join_on sep (split_on sep s) = s"
proof (induction s)
  case Nil
  then show ?case by simp
next
  case (Cons c cs)
  obtain w ws where split: "split_on sep cs = w # ws"
    using split_on_nonempty [of sep cs] by (cases "split_on sep cs") auto
  with Cons show ?case
    by (simp add: join_on_Cons)
qed

lemma split_on_no_sep: "l \<in> set (split_on sep s) \<Longrightarrow> sep \<notin> set l"
proof (induction s arbitrary: l)
  case Nil
  then show ?case by simp
next
  case (Cons c cs)
  obtain w ws where split: "split_on sep cs = w # ws"
    using split_on_nonempty [of sep cs] by (cases "split_on sep cs") auto
  with Cons show ?case
    by (auto split: if_splits)
qed

lemma strip_by_last: "strip_by P s \<noteq> [] \<Longrightarrow> \<not> P (last (strip_by P s))"
proof -
  assume nonempty: "strip_by P s \<noteq> []"
  then have "dropWhile P (rev (dropWhile P s)) \<noteq> []"
    by (simp add: strip_by_def)
  then have "\<not> P (hd (dropWhile P (rev (dropWhile P s))))"
    by (rule hd_dropWhile)
  moreover have "last (strip_by P s) = hd (dropWhile P (rev (dropWhile P s)))"
    unfolding strip_by_def by (simp add: last_rev)
  ultimately show ?thesis by simp
qed

lemma strip_by_shape:
  "\<exists>a b. s = a @ strip_by P s @ b \<and> (\<forall>c \<in> set a. P c) \<and> (\<forall>c \<in> set b. P c)"
proof -
  let ?t = "dropWhile P s"
  have "rev ?t = takeWhile P (rev ?t) @ dropWhile P (rev ?t)"
    by simp
  then have "?t = rev (dropWhile P (rev ?t)) @ rev (takeWhile P (rev ?t))"
    by (metis rev_append rev_rev_ident)
  then have "s = takeWhile P s @ strip_by P s @ rev (takeWhile P (rev ?t))"
    unfolding strip_by_def by (metis takeWhile_dropWhile_id)
  moreover have "\<forall>c \<in> set (takeWhile P s). P c"
    by (auto dest: set_takeWhileD)
  moreover have "\<forall>c \<in> set (rev (takeWhile P (rev ?t))). P c"
    by (auto dest: set_takeWhileD)
  ultimately show ?thesis by blast
qed

subsection \<open>Citation snippets\<close>

lemma snippet_app_unfold:
  "snippet_app (Some s) =
     take 400 (replace_char 10 32 s) @ (if 400 < length s then lit ''...'' else [])"
  by (simp add: snippet_app_def Let_def or_empty_def length_replace_char)

lemma length_snippet_app: "length (snippet_app t) \<le> 403"
  by (simp add: snippet_app_def Let_def lit_dots)

lemma snippet_query_app: "snippet_query t = snippet_app t"
  by (simp add: snippet_query_def snippet_app_def Let_def take_replace_char length_replace_char)

lemma snippet_app_no_newline: "10 \<notin> set (snippet_app t)"
proof -
  have "10 \<notin> set (take 400 (replace_char 10 32 (or_empty t)))"
    using replace_char_removes [of 10 32 "or_empty t"] by (auto dest: in_set_takeD)
  then show ?thesis
    by (simp add: snippet_app_def Let_def lit_dots)
qed

lemma snippet_app_500:
  "length s = 500 \<Longrightarrow>
   snippet_app (Some s) = take 400 (replace_char 10 32 s) @ lit ''...'' \<and>
   length (snippet_app (Some s)) = 403"
  by (simp add: snippet_app_unfold lit_dots length_replace_char)

lemma snippet_app_50:
  "length s = 50 \<Longrightarrow> snippet_app (Some s) = replace_char 10 32 s"
  by (simp add: snippet_app_unfold length_replace_char)

lemma citations_of_bound:
  "c \<in> set (citations_of chunks) \<Longrightarrow> length (cite_text c) \<le> 403"
  by (induction chunks) (auto simp: length_snippet_app split: option.splits)

text \<open>
  Claim C1, as the code has it. The snippet of a source text is its first 400 code
  points with every newline replaced by one space, followed by the three-character
  ellipsis exactly when the text is longer than 400. Its length is therefore at most
  403, not 400, and the same bound holds for every citation \<open>ask_question\<close> builds. A
  text of 500 code points gives 400 code points and the ellipsis, 403 in all; a text of
  50 code points gives the text with its newlines replaced and no ellipsis, which is
  the text itself when it has no newline.
\<close>

theorem citation_snippet_shape:
  "snippet_app (Some s) =
     take 400 (replace_char 10 32 s) @ (if 400 < length s then lit ''...'' else []) \<and>
   snippet_query (Some s) = snippet_app (Some s) \<and>
   length (snippet_app (Some s)) \<le> 403 \<and>
   10 \<notin> set (snippet_app (Some s)) \<and>
   (length s = 500 \<longrightarrow>
      snippet_app (Some s) = take 400 (replace_char 10 32 s) @ lit ''...'' \<and>
      length (snippet_app (Some s)) = 403) \<and>
   (length s = 50 \<longrightarrow> snippet_app (Some s) = replace_char 10 32 s) \<and>
   (length s = 50 \<and> 10 \<notin> set s \<longrightarrow> snippet_app (Some s) = s) \<and>
   (\<forall>c \<in> set (citations_of chunks). length (cite_text c) \<le> 403)"
proof -
  have unmodified: "length s = 50 \<and> 10 \<notin> set s \<longrightarrow> snippet_app (Some s) = s"
    using snippet_app_50 [of s] replace_char_absent [of 10 s 32] by simp
  have cites: "\<forall>c \<in> set (citations_of chunks). length (cite_text c) \<le> 403"
    using citations_of_bound by blast
  show ?thesis
    using snippet_app_unfold [of s] snippet_query_app [of "Some s"]
      length_snippet_app [of "Some s"] snippet_app_no_newline [of "Some s"]
      snippet_app_500 [of s] snippet_app_50 [of s] unmodified cites
    by blast
qed

theorem citation_snippet_shape_witness:
  "length (replicate 500 (97::nat)) = 500 \<and>
   length (snippet_app (Some (replicate 500 97))) = 403 \<and>
   length (replicate 50 (97::nat)) = 50 \<and> 10 \<notin> set (replicate 50 (97::nat)) \<and>
   snippet_app (Some (replicate 50 97)) = replicate 50 97 \<and>
   \<lparr>cite_title = lit ''Unknown Source'', cite_text = lit ''ab cd''\<rparr>
      \<in> set (citations_of [\<lparr>retrieved_context = None\<rparr>,
            \<lparr>retrieved_context =
               Some \<lparr>ctx_title = None, ctx_text = Some (lit ''ab'' @ [10] @ lit ''cd'')\<rparr>\<rparr>]) \<and>
   length (lit ''ab cd'') \<le> 403"
  using citation_snippet_shape [of "replicate 500 97" "[]"]
    citation_snippet_shape [of "replicate 50 97" "[\<lparr>retrieved_context = None\<rparr>,
            \<lparr>retrieved_context =
               Some \<lparr>ctx_title = None, ctx_text = Some (lit ''ab'' @ [10] @ lit ''cd'')\<rparr>\<rparr>]"]
  by (simp add: or_default_def snippet_app_unfold replace_char_def lit_def)

text \<open>
  Claim C1 as stated fails: the snippet of a text of 500 code points is longer than
  the cap of 400, and a text of 50 code points that contains a newline is not returned
  unmodified.
\<close>

theorem citation_snippet_cap_counterexample:
  "\<not> length (snippet_app (Some (replicate 500 97))) \<le> 400 \<and>
   length (replicate 49 (97::nat) @ [10]) = 50 \<and>
   snippet_app (Some (replicate 49 97 @ [10])) \<noteq> replicate 49 97 @ [10]"
  by (simp add: snippet_app_unfold replace_char_def lit_dots)

text \<open>
  Claim C9. The snippet of query.py (cut, then replace the newlines) and the snippet of
  app.py (replace the newlines, then cut) are the same string for every source text,
  absent or present, and replacing the newlines does not change the length the
  ellipsis test reads.
\<close>

theorem snippets_agree:
  "snippet_query t = snippet_app t \<and>
   (400 < length (replace_char 10 32 (or_empty t))) = (400 < length (or_empty t))"
  by (simp add: snippet_query_app length_replace_char)

subsection \<open>Metadata filter\<close>

text \<open>
  Claim C6. With no source type the search tool of the request has no metadata filter;
  with the source type \<open>book\<close> the filter is the string \<open>source_type="book"\<close> (34 is the
  double quote). This holds for the request of \<open>ask_question\<close> in app.py and for
  \<open>build_metadata_filter\<close> and the request of query.py; a generation call that echoes
  the filter of the request it is given shows what \<open>ask_question\<close> sends.
\<close>

theorem ask_metadata_filter:
  "metadata_filter (app_file_search sn None) = None \<and>
   metadata_filter (app_file_search sn (Some (lit ''book''))) =
     Some (lit ''source_type='' @ [34] @ lit ''book'' @ [34]) \<and>
   build_metadata_filter None = None \<and>
   build_metadata_filter (Some (lit ''book'')) =
     Some (lit ''source_type='' @ [34] @ lit ''book'' @ [34]) \<and>
   metadata_filter (query_file_search sn None) = None \<and>
   metadata_filter (query_file_search sn (Some (lit ''book''))) =
     Some (lit ''source_type='' @ [34] @ lit ''book'' @ [34]) \<and>
   file_search_store_names (app_file_search sn source_type) = [sn] \<and>
   ask_question (Some (lit ''key'')) echo_filter question sn None =
     Inl (RemoteError (lit ''no filter'')) \<and>
   ask_question (Some (lit ''key'')) echo_filter question sn (Some (lit ''book'')) =
     Inl (RemoteError (lit ''source_type='' @ [34] @ lit ''book'' @ [34]))"
  by (simp add: app_file_search_def query_file_search_def build_metadata_filter_def
      ask_question_def get_client_def echo_filter_def lit_def)

text \<open>
  Claim C10. The empty string as source type gives the same request as no source type:
  \<open>build_metadata_filter\<close> returns \<open>None\<close> for both, the search tools of app.py and
  query.py are equal, no filter on an empty \<open>source_type\<close> is built, and \<open>ask_question\<close>
  and \<open>suggest_questions\<close> return the same result.
\<close>

theorem empty_source_type_is_no_filter:
  "build_metadata_filter None = None \<and>
   build_metadata_filter (Some []) = None \<and>
   app_file_search sn (Some []) = app_file_search sn None \<and>
   query_file_search sn (Some []) = query_file_search sn None \<and>
   metadata_filter (app_file_search sn (Some [])) \<noteq>
     Some (lit ''source_type='' @ [34] @ [] @ [34]) \<and>
   ask_question key gen question sn (Some []) =
     ask_question key gen question sn None \<and>
   suggest_questions key gen sn (Some []) count =
     suggest_questions key gen sn None count"
proof -
  have same: "app_file_search sn (Some []) = app_file_search sn None"
    by (simp add: app_file_search_def)
  have ask: "ask_question key gen question sn (Some []) = ask_question key gen question sn None"
    unfolding ask_question_def same by (rule refl)
  have suggest: "suggest_questions key gen sn (Some []) count =
      suggest_questions key gen sn None count"
    unfolding suggest_questions_def same by (rule refl)
  have rest: "build_metadata_filter None = None \<and>
      build_metadata_filter (Some []) = None \<and>
      query_file_search sn (Some []) = query_file_search sn None \<and>
      metadata_filter (app_file_search sn (Some [])) \<noteq>
        Some (lit ''source_type='' @ [34] @ [] @ [34])"
    by (simp add: app_file_search_def query_file_search_def build_metadata_filter_def)
  show ?thesis
    using same ask suggest rest by blast
qed

subsection \<open>Suggested questions\<close>

lemma parse_suggestions_exact:
  "0 \<le> count \<Longrightarrow>
   parse_suggestions body count =
     take (nat count) (filter (\<lambda>q. 10 < length q)
       (map (py_strip_chars [32, 45, 42, 10, 13, 9]) (filter (\<lambda>l. py_strip l \<noteq> []) (split_on 10 body))))"
  by (simp add: parse_suggestions_def Let_def py_slice_to_def)

lemma parse_suggestions_long:
  "q \<in> set (parse_suggestions body count) \<Longrightarrow> 10 < length q"
  using set_py_slice_to by (fastforce simp: parse_suggestions_def Let_def)

lemma parse_suggestions_subseq:
  "subseq (parse_suggestions body count)
     (map (py_strip_chars [32, 45, 42, 10, 13, 9]) (split_on 10 body))"
  unfolding parse_suggestions_def Let_def
  by (rule subseq_order.trans[OF subseq_py_slice_to],
      rule subseq_order.trans[OF subseq_filter_left], rule subseq_map_filter)

lemma parse_suggestions_length:
  "0 \<le> count \<Longrightarrow> length (parse_suggestions body count) \<le> nat count"
  by (simp add: parse_suggestions_def Let_def length_py_slice_to)

lemma parse_suggestions_complete:
  assumes "int (length (split_on 10 body)) \<le> count"
    and "l \<in> set (split_on 10 body)" and "py_strip l \<noteq> []"
    and "10 < length (py_strip_chars [32, 45, 42, 10, 13, 9] l)"
  shows "py_strip_chars [32, 45, 42, 10, 13, 9] l \<in> set (parse_suggestions body count)"
proof -
  let ?kept = "filter (\<lambda>q. 10 < length q)
     (map (py_strip_chars [32, 45, 42, 10, 13, 9]) (filter (\<lambda>l. py_strip l \<noteq> []) (split_on 10 body)))"
  have "length ?kept \<le> length (split_on 10 body)"
    by (rule order_trans [OF length_filter_le]) simp
  with assms(1) have "length ?kept \<le> nat count" and "0 \<le> count"
    by linarith+
  then have "parse_suggestions body count = ?kept"
    by (simp add: parse_suggestions_exact)
  moreover have "py_strip_chars [32, 45, 42, 10, 13, 9] l \<in> set ?kept"
    using assms(2-4) by auto
  ultimately show ?thesis by simp
qed

lemma trim_shape:
  "\<exists>a b. l = a @ py_strip_chars cs l @ b \<and> (\<forall>c \<in> set a. c \<in> set cs) \<and> (\<forall>c \<in> set b. c \<in> set cs)"
  unfolding py_strip_chars_def by (rule strip_by_shape)

lemma trim_ends:
  "py_strip_chars cs l \<noteq> [] \<Longrightarrow>
   hd (py_strip_chars cs l) \<notin> set cs \<and> last (py_strip_chars cs l) \<notin> set cs"
  unfolding py_strip_chars_def using strip_by_hd strip_by_last by blast

lemma suggest_questions_parses:
  "suggest_questions key gen sn src count = Inr qs \<Longrightarrow>
   \<exists>prompt resp. gen (lit ''gemini-2.5-flash'') prompt (app_file_search sn src) = Inr resp \<and>
     qs = parse_suggestions (or_empty (resp_text resp)) count"
  by (auto simp: suggest_questions_def Let_def split: if_splits sum.splits)

text \<open>
  Claim C8. For every response text and every count that is not negative, the
  questions returned are exactly the first \<open>count\<close> of the trimmed lines that are
  longer than 10 code points, where the lines are the pieces of the text between its
  newlines (joined by newlines they give the text back, and none contains a newline),
  blank lines are dropped, and a trimmed line is the line without its leading and
  trailing characters among space, hyphen, asterisk, newline, carriage return and tab.
  Hence every question returned is longer than 10 code points, at most \<open>count\<close> are
  returned, they are a subsequence of the trimmed lines in the order of the response,
  and when \<open>count\<close> is at least the number of lines every line that is not blank and
  whose trimmed form is longer than 10 code points is returned. What
  \<open>suggest_questions\<close> returns is this parsing of the text of the response.
\<close>

theorem suggestions_filtered_and_bounded:
  assumes "0 \<le> count"
  shows "parse_suggestions body count =
           take (nat count) (filter (\<lambda>q. 10 < length q)
             (map (py_strip_chars [32, 45, 42, 10, 13, 9])
                (filter (\<lambda>l. py_strip l \<noteq> []) (split_on 10 body)))) \<and>
         join_on 10 (split_on 10 body) = body \<and>
         (\<forall>l \<in> set (split_on 10 body). 10 \<notin> set l) \<and>
         (\<exists>a b. l = a @ py_strip_chars [32, 45, 42, 10, 13, 9] l @ b \<and>
            (\<forall>c \<in> set a. c \<in> set [32, 45, 42, 10, 13, 9]) \<and>
            (\<forall>c \<in> set b. c \<in> set [32, 45, 42, 10, 13, 9])) \<and>
         (py_strip_chars [32, 45, 42, 10, 13, 9] l \<noteq> [] \<longrightarrow>
            hd (py_strip_chars [32, 45, 42, 10, 13, 9] l) \<notin> set [32, 45, 42, 10, 13, 9] \<and>
            last (py_strip_chars [32, 45, 42, 10, 13, 9] l) \<notin> set [32, 45, 42, 10, 13, 9]) \<and>
         (\<forall>q \<in> set (parse_suggestions body count). 10 < length q) \<and>
         int (length (parse_suggestions body count)) \<le> count \<and>
         subseq (parse_suggestions body count)
           (map (py_strip_chars [32, 45, 42, 10, 13, 9]) (split_on 10 body)) \<and>
         (int (length (split_on 10 body)) \<le> count \<longrightarrow>
            (\<forall>l \<in> set (split_on 10 body).
               py_strip l \<noteq> [] \<and> 10 < length (py_strip_chars [32, 45, 42, 10, 13, 9] l) \<longrightarrow>
               py_strip_chars [32, 45, 42, 10, 13, 9] l \<in> set (parse_suggestions body count))) \<and>
         (suggest_questions key gen sn src count = Inr qs \<longrightarrow>
            (\<exists>prompt resp.
               gen (lit ''gemini-2.5-flash'') prompt (app_file_search sn src) = Inr resp \<and>
               qs = parse_suggestions (or_empty (resp_text resp)) count))"
proof -
  have bound: "int (length (parse_suggestions body count)) \<le> count"
    using parse_suggestions_length [OF assms, of body] assms by linarith
  have lines: "\<forall>l \<in> set (split_on 10 body). 10 \<notin> set l"
    using split_on_no_sep by blast
  have long: "\<forall>q \<in> set (parse_suggestions body count). 10 < length q"
    using parse_suggestions_long by blast
  have complete: "int (length (split_on 10 body)) \<le> count \<longrightarrow>
      (\<forall>l \<in> set (split_on 10 body).
         py_strip l \<noteq> [] \<and> 10 < length (py_strip_chars [32, 45, 42, 10, 13, 9] l) \<longrightarrow>
         py_strip_chars [32, 45, 42, 10, 13, 9] l \<in> set (parse_suggestions body count))"
    using parse_suggestions_complete by blast
  have parsed: "suggest_questions key gen sn src count = Inr qs \<longrightarrow>
      (\<exists>prompt resp.
         gen (lit ''gemini-2.5-flash'') prompt (app_file_search sn src) = Inr resp \<and>
         qs = parse_suggestions (or_empty (resp_text resp)) count)"
    using suggest_questions_parses by blast
  have ends: "py_strip_chars [32, 45, 42, 10, 13, 9] l \<noteq> [] \<longrightarrow>
      hd (py_strip_chars [32, 45, 42, 10, 13, 9] l) \<notin> set [32, 45, 42, 10, 13, 9] \<and>
      last (py_strip_chars [32, 45, 42, 10, 13, 9] l) \<notin> set [32, 45, 42, 10, 13, 9]"
    using trim_ends by blast
  show ?thesis
    using parse_suggestions_exact [OF assms, of body] join_on_split_on [of 10 body] lines
      trim_shape [of l "[32, 45, 42, 10, 13, 9]"] ends long bound
      parse_suggestions_subseq [of body count] complete parsed
    by (intro conjI) assumption+
qed

theorem suggestions_filtered_and_bounded_witness:
  "(0::int) \<le> 1 \<and>
   parse_suggestions 
     (lit ''- What is the ego?'' @ [10] @ lit ''* ok'' @ [10, 10] @
      lit ''  How does the unconscious work? '' @ [13]) 1 = [lit ''What is the ego?''] \<and>
   split_on 10 
     (lit ''- What is the ego?'' @ [10] @ lit ''* ok'' @ [10, 10] @
      lit ''  How does the unconscious work? '' @ [13]) =
     [lit ''- What is the ego?'', lit ''* ok'', [], lit ''  How does the unconscious work? '' @ [13]] \<and>
   int (length (split_on 10 
     (lit ''- What is the ego?'' @ [10] @ lit ''* ok'' @ [10, 10] @
      lit ''  How does the unconscious work? '' @ [13]))) \<le> 5 \<and>
   parse_suggestions 
     (lit ''- What is the ego?'' @ [10] @ lit ''* ok'' @ [10, 10] @
      lit ''  How does the unconscious work? '' @ [13]) 5 = [lit ''What is the ego?'', lit ''How does the unconscious work?''] \<and>
   lit ''How does the unconscious work?'' \<in> set (parse_suggestions 
     (lit ''- What is the ego?'' @ [10] @ lit ''* ok'' @ [10, 10] @
      lit ''  How does the unconscious work? '' @ [13]) 5) \<and>
   10 < length (lit ''What is the ego?'') \<and>
   int (length (parse_suggestions 
     (lit ''- What is the ego?'' @ [10] @ lit ''* ok'' @ [10, 10] @
      lit ''  How does the unconscious work? '' @ [13]) 1)) \<le> 1"
proof -
  have one: "parse_suggestions 
     (lit ''- What is the ego?'' @ [10] @ lit ''* ok'' @ [10, 10] @
      lit ''  How does the unconscious work? '' @ [13]) 1 = [lit ''What is the ego?'']"
    by (simp add: parse_suggestions_def lit_def py_slice_to_def py_strip_chars_def
        py_strip_def strip_by_def py_isspace_def)
  have five: "parse_suggestions 
     (lit ''- What is the ego?'' @ [10] @ lit ''* ok'' @ [10, 10] @
      lit ''  How does the unconscious work? '' @ [13]) 5 =
      [lit ''What is the ego?'', lit ''How does the unconscious work?'']"
    by (simp add: parse_suggestions_def lit_def py_slice_to_def py_strip_chars_def
        py_strip_def strip_by_def py_isspace_def)
  have lines: "split_on 10 
     (lit ''- What is the ego?'' @ [10] @ lit ''* ok'' @ [10, 10] @
      lit ''  How does the unconscious work? '' @ [13]) =
     [lit ''- What is the ego?'', lit ''* ok'', [], lit ''  How does the unconscious work? '' @ [13]]"
    by (simp add: lit_def)
  have nonneg: "(0::int) \<le> 1" "(0::int) \<le> 5"
    by simp_all
  have len: "int (length (split_on 10 
     (lit ''- What is the ego?'' @ [10] @ lit ''* ok'' @ [10, 10] @
      lit ''  How does the unconscious work? '' @ [13]))) \<le> 5"
    unfolding lines by simp
  have last_line: "lit ''  How does the unconscious work? '' @ [13] \<in> set (split_on 10 
     (lit ''- What is the ego?'' @ [10] @ lit ''* ok'' @ [10, 10] @
      lit ''  How does the unconscious work? '' @ [13])) \<and>
      py_strip (lit ''  How does the unconscious work? '' @ [13]) \<noteq> [] \<and>
      10 < length (py_strip_chars [32, 45, 42, 10, 13, 9] (lit ''  How does the unconscious work? '' @ [13])) \<and>
      py_strip_chars [32, 45, 42, 10, 13, 9] (lit ''  How does the unconscious work? '' @ [13]) =
        lit ''How does the unconscious work?''"
    unfolding lines
    by (simp add: lit_def py_strip_chars_def py_strip_def strip_by_def py_isspace_def)
  let ?T = "(lit ''- What is the ego?'' @ [10] @ lit ''* ok'' @ [10, 10] @
      lit ''  How does the unconscious work? '' @ [13])"
  let ?L = "lit ''  How does the unconscious work? '' @ [13]"
  have complete: "int (length (split_on 10 ?T)) \<le> 5 \<longrightarrow>
      (\<forall>l \<in> set (split_on 10 ?T).
         py_strip l \<noteq> [] \<and> 10 < length (py_strip_chars [32, 45, 42, 10, 13, 9] l) \<longrightarrow>
         py_strip_chars [32, 45, 42, 10, 13, 9] l \<in> set (parse_suggestions ?T 5))"
    using suggestions_filtered_and_bounded [OF nonneg(2), where body = ?T and l = ?L
        and key = None and gen = echo_filter and sn = "[]" and src = None and qs = "[]"]
    by blast
  from complete len have "\<forall>l \<in> set (split_on 10 ?T).
         py_strip l \<noteq> [] \<and> 10 < length (py_strip_chars [32, 45, 42, 10, 13, 9] l) \<longrightarrow>
         py_strip_chars [32, 45, 42, 10, 13, 9] l \<in> set (parse_suggestions ?T 5)"
    by (rule mp)
  then have "py_strip_chars [32, 45, 42, 10, 13, 9] ?L \<in> set (parse_suggestions ?T 5)"
    using last_line by blast
  moreover have "py_strip_chars [32, 45, 42, 10, 13, 9] ?L = lit ''How does the unconscious work?''"
    using last_line by blast
  ultimately have kept: "lit ''How does the unconscious work?'' \<in> set (parse_suggestions ?T 5)"
    by (rule subst [rotated])
  have bound: "int (length (parse_suggestions ?T 1)) \<le> 1"
    using suggestions_filtered_and_bounded [OF nonneg(1), where body = ?T and l = ?L
        and key = None and gen = echo_filter and sn = "[]" and src = None and qs = "[]"]
    by blast
  have long: "10 < length (lit ''What is the ego?'')"
    by (simp add: lit_def)
  show ?thesis
    using nonneg(1) one lines len five kept long bound by blast
qed

section \<open>Properties of the ingestion\<close>

subsection \<open>The waiter\<close>

lemmas client_defs =
  client_stores_get_def client_stores_create_def client_files_upload_def
  client_import_file_def client_operations_get_def

lemma wait_done: "op_done op \<Longrightarrow> wait_for_operation sv op w = Some (Inr op, w)"
  by (subst wait_for_operation.simps) simp

lemma wait_not_done:
  "\<not> op_done op \<Longrightarrow>
   wait_for_operation sv op w =
     (case operations_get sv op (remote w) of
        (Inl e, r) \<Rightarrow> Some (Inl e, after_call w (OperationsGet op) r)
      | (Inr op', r) \<Rightarrow> wait_for_operation sv op' (after_call w (OperationsGet op) r))"
  by (subst wait_for_operation.simps)
     (simp add: client_operations_get_def split: prod.splits sum.splits)

lemma wait_returns_done_aux:
  "wait_for_operation sv op w = Some y \<Longrightarrow> (\<forall>op'. fst y = Inr op' \<longrightarrow> op_done op')"
proof (induction rule: wait_for_operation.raw_induct [rotated 1, consumes 1, case_names step])
  case (step wait sv op w y)
  then show ?case
    by (auto simp: client_operations_get_def split: if_splits prod.splits sum.splits)
qed

lemma wait_returns_done:
  "wait_for_operation sv op w = Some (Inr op', w') \<Longrightarrow> op_done op'"
  using wait_returns_done_aux by fastforce

lemma polls_no_imports: "polls cs \<Longrightarrow> import_args cs = []"
  by (induction cs rule: polls.induct) auto

lemma polls_no_resolutions: "polls cs \<Longrightarrow> resolutions cs = []"
  by (induction cs rule: polls.induct) auto

lemma import_args_append: "import_args (xs @ ys) = import_args xs @ import_args ys"
  by (induction xs rule: import_args.induct) auto

lemma resolutions_append: "resolutions (xs @ ys) = resolutions xs @ resolutions ys"
  by (induction xs rule: resolutions.induct) auto

lemma wait_calls_aux:
  "wait_for_operation sv op w = Some y \<Longrightarrow> (\<exists>cs. calls (snd y) = calls w @ cs \<and> polls cs)"
proof (induction rule: wait_for_operation.raw_induct [rotated 1, consumes 1, case_names step])
  case (step wait sv op w y)
  show ?case
  proof (cases "op_done op")
    case True
    with step show ?thesis by auto
  next
    case False
    obtain res r where g: "operations_get sv op (remote w) = (res, r)"
      by (cases "operations_get sv op (remote w)")
    show ?thesis
    proof (cases res)
      case (Inl e)
      with step False g show ?thesis by (auto simp: client_operations_get_def after_call_def)
    next
      case (Inr op2)
      with step(2) False g have "wait sv op2 (after_call w (OperationsGet op) r) = Some y"
        by (simp add: client_operations_get_def)
      from step(1) [OF this] obtain cs where
        "calls (snd y) = calls (after_call w (OperationsGet op) r) @ cs" "polls cs"
        by blast
      then have "calls (snd y) = calls w @ (OperationsGet op # cs) \<and> polls (OperationsGet op # cs)"
        by (simp add: after_call_def)
      then show ?thesis by blast
    qed
  qed
qed

lemma wait_calls:
  "wait_for_operation sv op w = Some (res, w') \<Longrightarrow> \<exists>cs. calls w' = calls w @ cs \<and> polls cs"
  using wait_calls_aux by fastforce

subsection \<open>One file\<close>

lemma upload_pdf_calls:
  "upload_pdf env idx pdf w = (res, w1) \<Longrightarrow>
   \<exists>c. calls w1 = calls w @ [c] \<and> import_args [c] = [] \<and> resolutions [c] = []"
  by (auto simp: upload_pdf_def client_defs Let_def after_call_def split: prod.splits)

lemma import_pdf_calls:
  "import_pdf env st pdf f w = (res, w1) \<Longrightarrow>
   \<exists>c. calls w1 = calls w @ [c] \<and>
       import_args [c] = [(store_name st, book_metadata (path_stem pdf))] \<and> resolutions [c] = []"
  by (auto simp: import_pdf_def client_defs Let_def after_call_def split: prod.splits)

lemma ingest_file_upload_error:
  "upload_pdf env idx pdf w = (Inl e, w1) \<Longrightarrow> ingest_file env st idx pdf w = Some (Inl e, w1)"
  by (simp add: ingest_file_def)

lemma ingest_file_import_error:
  "upload_pdf env idx pdf w = (Inr f, w1) \<Longrightarrow> import_pdf env st pdf f w1 = (Inl e, w2) \<Longrightarrow>
   ingest_file env st idx pdf w = Some (Inl e, w2)"
  by (simp add: ingest_file_def)

lemma ingest_file_wait_error:
  "upload_pdf env idx pdf w = (Inr f, w1) \<Longrightarrow> import_pdf env st pdf f w1 = (Inr op, w2) \<Longrightarrow>
   wait_for_operation (svc env) op w2 = Some (Inl e, w3) \<Longrightarrow>
   ingest_file env st idx pdf w = Some (Inl e, w3)"
  by (simp add: ingest_file_def)

lemma ingest_file_wait_returns:
  "upload_pdf env idx pdf w = (Inr f, w1) \<Longrightarrow> import_pdf env st pdf f w1 = (Inr op, w2) \<Longrightarrow>
   wait_for_operation (svc env) op w2 = Some (Inr op', w3) \<Longrightarrow>
   ingest_file env st idx pdf w = Some (Inr (), w3)"
  by (simp add: ingest_file_def)

lemma ingest_file_calls:
  assumes "ingest_file env st idx pdf w = Some (res, w')"
  shows "\<exists>cs. calls w' = calls w @ cs \<and> resolutions cs = [] \<and>
           prefix (import_args cs) [(store_name st, book_metadata (path_stem pdf))] \<and>
           (res = Inr () \<longrightarrow> import_args cs = [(store_name st, book_metadata (path_stem pdf))])"
proof -
  obtain r1 w1 where up: "upload_pdf env idx pdf w = (r1, w1)"
    by (cases "upload_pdf env idx pdf w")
  from upload_pdf_calls [OF up] obtain c1 where
    c1: "calls w1 = calls w @ [c1]" "import_args [c1] = []" "resolutions [c1] = []"
    by blast
  show ?thesis
  proof (cases r1)
    case (Inl e)
    with assms up have "res = Inl e" "w' = w1" by (auto simp: ingest_file_def)
    with c1 show ?thesis by auto
  next
    case (Inr f)
    obtain r2 w2 where im: "import_pdf env st pdf f w1 = (r2, w2)"
      by (cases "import_pdf env st pdf f w1")
    from import_pdf_calls [OF im] obtain c2 where
      c2: "calls w2 = calls w1 @ [c2]"
        "import_args [c2] = [(store_name st, book_metadata (path_stem pdf))]"
        "resolutions [c2] = []"
      by blast
    have both: "calls w2 = calls w @ [c1, c2]"
      "import_args [c1, c2] = [(store_name st, book_metadata (path_stem pdf))]"
      "resolutions [c1, c2] = []"
      using c1 c2 import_args_append [of "[c1]" "[c2]"] resolutions_append [of "[c1]" "[c2]"]
      by auto
    show ?thesis
    proof (cases r2)
      case (Inl e)
      with assms up im Inr have "w' = w2" by (auto simp: ingest_file_def)
      with both show ?thesis by (metis prefix_order.order_refl)
    next
      case op: (Inr op)
      with assms up im Inr obtain r3 where
        wt: "wait_for_operation (svc env) op w2 = Some (r3, w')"
        by (auto simp: ingest_file_def split: option.splits sum.splits)
      from wait_calls [OF wt] obtain ps where ps: "calls w' = calls w2 @ ps" "polls ps"
        by blast
      have "calls w' = calls w @ ([c1, c2] @ ps)"
        using ps both by simp
      moreover have "import_args ([c1, c2] @ ps) = [(store_name st, book_metadata (path_stem pdf))]"
        using both polls_no_imports [OF ps(2)] import_args_append [of "[c1, c2]" ps] by simp
      moreover have "resolutions ([c1, c2] @ ps) = []"
        using both polls_no_resolutions [OF ps(2)] resolutions_append [of "[c1, c2]" ps] by simp
      ultimately show ?thesis by (metis prefix_order.order_refl)
    qed
  qed
qed

subsection \<open>The loop\<close>

lemma ingest_loop_append:
  "ingest_loop env st idx pdfs w = Some (Inr (), w1) \<Longrightarrow>
   ingest_loop env st idx (pdfs @ rest) w = ingest_loop env st (idx + length pdfs) rest w1"
proof (induction pdfs arbitrary: idx w)
  case Nil
  then show ?case by simp
next
  case (Cons pdf pdfs)
  then show ?case
    by (auto split: option.splits sum.splits prod.splits)
qed

lemma ingest_loop_calls:
  "ingest_loop env st idx pdfs w = Some (res, w') \<Longrightarrow>
   \<exists>cs. calls w' = calls w @ cs \<and> resolutions cs = [] \<and>
        prefix (import_args cs) (map (\<lambda>p. (store_name st, book_metadata (path_stem p))) pdfs) \<and>
        (res = Inr () \<longrightarrow>
           import_args cs = map (\<lambda>p. (store_name st, book_metadata (path_stem p))) pdfs)"
proof (induction pdfs arbitrary: idx w)
  case Nil
  then show ?case by auto
next
  case (Cons pdf pdfs)
  from Cons.prems obtain r1 w1 where f: "ingest_file env st idx pdf w = Some (r1, w1)"
    by (auto split: option.splits)
  from ingest_file_calls [OF f] obtain cs1 where
    cs1: "calls w1 = calls w @ cs1" "resolutions cs1 = []"
      "prefix (import_args cs1) [(store_name st, book_metadata (path_stem pdf))]"
      "r1 = Inr () \<longrightarrow> import_args cs1 = [(store_name st, book_metadata (path_stem pdf))]"
    by blast
  show ?case
  proof (cases r1)
    case (Inl e)
    with Cons.prems f have "res = Inl e" "w' = w1" by auto
    moreover have "prefix [(store_name st, book_metadata (path_stem pdf))]
        (map (\<lambda>p. (store_name st, book_metadata (path_stem p))) (pdf # pdfs))"
      by simp
    then have "prefix (import_args cs1)
        (map (\<lambda>p. (store_name st, book_metadata (path_stem p))) (pdf # pdfs))"
      using cs1(3) by (meson prefix_order.trans)
    ultimately show ?thesis using cs1 by auto
  next
    case (Inr u)
    with Cons.prems f have rest: "ingest_loop env st (Suc idx) pdfs w1 = Some (res, w')"
      by auto
    from Cons.IH [OF rest] obtain cs2 where
      cs2: "calls w' = calls w1 @ cs2" "resolutions cs2 = []"
        "prefix (import_args cs2) (map (\<lambda>p. (store_name st, book_metadata (path_stem p))) pdfs)"
        "res = Inr () \<longrightarrow>
           import_args cs2 = map (\<lambda>p. (store_name st, book_metadata (path_stem p))) pdfs"
      by blast
    have one: "import_args cs1 = [(store_name st, book_metadata (path_stem pdf))]"
      using cs1(4) Inr by simp
    have "calls w' = calls w @ (cs1 @ cs2)"
      using cs1 cs2 by simp
    moreover have "resolutions (cs1 @ cs2) = []"
      using cs1 cs2 by (simp add: resolutions_append)
    moreover have "prefix (import_args (cs1 @ cs2))
        (map (\<lambda>p. (store_name st, book_metadata (path_stem p))) (pdf # pdfs))"
      using one cs2(3) by (simp add: import_args_append)
    moreover have "res = Inr () \<longrightarrow> import_args (cs1 @ cs2) =
        map (\<lambda>p. (store_name st, book_metadata (path_stem p))) (pdf # pdfs)"
      using one cs2(4) by (simp add: import_args_append)
    ultimately show ?thesis by blast
  qed
qed

lemma get_or_create_store_calls:
  "get_or_create_store sv name display_name w = (res, w0) \<Longrightarrow>
   \<exists>c. calls w0 = calls w @ [c] \<and> resolutions [c] = [c]"
  by (auto simp: get_or_create_store_def client_defs after_call_def
      split: option.splits prod.splits if_splits)
subsection \<open>Evaluating the example service\<close>

lemma example_name_a:
  "file_resource_name latin1 (lit ''520faea5d184416281b4809701a5177e'') (lit ''a'') =
     lit ''a-520faea5''"
  by (simp add: file_resource_name_def latin1_def latin1_isalnum_def latin1_lower_def lit_def
      py_strip_def py_strip_chars_def strip_by_def py_isspace_def py_slice_to_def)

lemma example_name_b:
  "file_resource_name latin1 (lit ''520faea5d184416281b4809701a5177e'') (lit ''b'') =
     lit ''b-520faea5''"
  by (simp add: file_resource_name_def latin1_def latin1_isalnum_def latin1_lower_def lit_def
      py_strip_def py_strip_chars_def strip_by_def py_isspace_def py_slice_to_def)

lemmas example_defs =
  example_env_def example_service_def no_faults_def pdf_a_def pdf_b_def world0_def
  get_client_def get_or_create_store_def upload_pdf_def import_pdf_def after_call_def
  client_defs
  book_metadata_def example_name_a example_name_b wait_done wait_not_done Let_def
  upload_a_def import_a_def upload_b_def import_b_def poll_op_def

lemma example_store:
  "get_or_create_store (svc (example_env pdfs fl)) None (lit ''X'') world0 =
     (Inr \<lparr>store_name = lit ''stores/s2''\<rparr>, \<lparr>remote = 0, calls = [StoresCreate (lit ''X'')]\<rparr>)"
  by (simp add: example_defs)

lemma example_client: "get_client (api_key (example_env pdfs fl)) = Inr (lit ''key'')"
  by (simp add: example_env_def get_client_def lit_def)

lemma example_run_empty:
  "ingest_pdfs (example_env [] fl) (lit ''d'') None (lit ''X'') world0 =
     Some (Inr None, \<lparr>remote = 0, calls = [StoresCreate (lit ''X'')]\<rparr>)"
  by (simp add: ingest_pdfs_def example_client example_store) (simp add: example_env_def)

lemma example_run_a:
  "ingest_pdfs (example_env [pdf_a] \<lparr>bad_upload = [], bad_import = [], bad_poll = [], err = e\<rparr>)
     (lit ''d'') None (lit ''X'') world0 =
     Some (Inr (Some (lit ''stores/s2'')),
       \<lparr>remote = 1, calls = [StoresCreate (lit ''X''), upload_a, import_a, poll_op]\<rparr>)"
  by (simp add: ingest_pdfs_def example_client example_store)
     (simp add: ingest_file_def example_defs)

subsection \<open>What \<open>ingest_pdfs\<close> returns\<close>

text \<open>
  Claim C2, as the code has it. \<open>ingest_pdfs\<close> returns no pair and no count. Once the
  credential is read and the store is resolved, a folder with no matching PDF makes it
  return \<open>None\<close> without raising, in the state the store resolution left, which is one
  remote call after the start; and whenever it returns normally the value is \<open>None\<close>
  for a folder with no matching PDF and the name of the resolved store otherwise.
\<close>

theorem ingest_returns_store_name_or_none:
  assumes "get_client (api_key env) = Inr k"
    and "get_or_create_store (svc env) name display_name w = (Inr st, w0)"
  shows "(glob_pdf env folder = [] \<longrightarrow>
            ingest_pdfs env folder name display_name w = Some (Inr None, w0)) \<and>
         (\<exists>c. calls w0 = calls w @ [c] \<and> resolutions [c] = [c]) \<and>
         (ingest_pdfs env folder name display_name w = Some (Inr r, w') \<longrightarrow>
            (glob_pdf env folder = [] \<and> r = None \<and> w' = w0) \<or>
            (glob_pdf env folder \<noteq> [] \<and> r = Some (store_name st)))"
proof -
  have empty: "glob_pdf env folder = [] \<longrightarrow>
      ingest_pdfs env folder name display_name w = Some (Inr None, w0)"
    using assms by (simp add: ingest_pdfs_def)
  have one_call: "\<exists>c. calls w0 = calls w @ [c] \<and> resolutions [c] = [c]"
    using get_or_create_store_calls [OF assms(2)] .
  have shape: "ingest_pdfs env folder name display_name w = Some (Inr r, w') \<longrightarrow>
      (glob_pdf env folder = [] \<and> r = None \<and> w' = w0) \<or>
      (glob_pdf env folder \<noteq> [] \<and> r = Some (store_name st))"
    using assms
    by (auto simp: ingest_pdfs_def Let_def split: option.splits sum.splits prod.splits if_splits)
  show ?thesis
    using empty one_call shape by blast
qed

theorem ingest_returns_store_name_or_none_witness:
  "get_client (api_key (example_env [] no_faults)) = Inr (lit ''key'') \<and>
   get_or_create_store (svc (example_env [] no_faults)) None (lit ''X'') world0 =
     (Inr \<lparr>store_name = lit ''stores/s2''\<rparr>,
      \<lparr>remote = 0, calls = [StoresCreate (lit ''X'')]\<rparr>) \<and>
   glob_pdf (example_env [] no_faults) (lit ''d'') = [] \<and>
   ingest_pdfs (example_env [] no_faults) (lit ''d'') None (lit ''X'') world0 =
     Some (Inr None, \<lparr>remote = 0, calls = [StoresCreate (lit ''X'')]\<rparr>) \<and>
   glob_pdf (example_env [pdf_a] no_faults) (lit ''d'') \<noteq> [] \<and>
   ingest_pdfs (example_env [pdf_a] no_faults) (lit ''d'') None (lit ''X'') world0 =
     Some (Inr (Some (lit ''stores/s2'')),
       \<lparr>remote = 1, calls = [StoresCreate (lit ''X''), upload_a, import_a, poll_op]\<rparr>)"
proof -
  have run: "ingest_pdfs (example_env [pdf_a] no_faults) (lit ''d'') None (lit ''X'') world0 =
     Some (Inr (Some (lit ''stores/s2'')),
       \<lparr>remote = 1, calls = [StoresCreate (lit ''X''), upload_a, import_a, poll_op]\<rparr>)"
    unfolding no_faults_def by (rule example_run_a)
  have listing: "glob_pdf (example_env [] no_faults) (lit ''d'') = []"
    "glob_pdf (example_env [pdf_a] no_faults) (lit ''d'') \<noteq> []"
    by (simp_all add: example_env_def)
  show ?thesis
    using ingest_returns_store_name_or_none [OF example_client example_store,
        of "[]" no_faults "lit ''d''" None "\<lparr>remote = 0, calls = []\<rparr>"]
      ingest_returns_store_name_or_none [OF example_client example_store,
        of "[pdf_a]" no_faults "lit ''d''" "Some (lit ''stores/s2'')"
           "\<lparr>remote = 1, calls = [StoresCreate (lit ''X''), upload_a, import_a, poll_op]\<rparr>"]
      run listing example_client [of "[]" no_faults] example_store [of "[]" no_faults]
    by simp
qed

text \<open>
  Claim C2 as stated fails: for a folder with no matching PDF \<open>ingest_pdfs\<close> returns
  \<open>None\<close>, which holds neither a count nor the identifier of the store that was
  resolved (here created) just before.
\<close>

theorem ingest_empty_folder_counterexample:
  "get_or_create_store (svc (example_env [] no_faults)) None (lit ''X'') world0 =
     (Inr \<lparr>store_name = lit ''stores/s2''\<rparr>,
      \<lparr>remote = 0, calls = [StoresCreate (lit ''X'')]\<rparr>) \<and>
   ingest_pdfs (example_env [] no_faults) (lit ''d'') None (lit ''X'') world0 =
     Some (Inr None, \<lparr>remote = 0, calls = [StoresCreate (lit ''X'')]\<rparr>) \<and>
   ingest_pdfs (example_env [] no_faults) (lit ''d'') None (lit ''X'') world0 \<noteq>
     Some (Inr (Some (lit ''stores/s2'')), \<lparr>remote = 0, calls = [StoresCreate (lit ''X'')]\<rparr>)"
  by (simp add: example_run_empty example_store)

subsection \<open>The waiter and the failure status\<close>

lemma example_wait_failed:
  "wait_for_operation
     (svc (example_env pdfs \<lparr>bad_upload = [], bad_import = [], bad_poll = [], err = e\<rparr>))
     \<lparr>op_name = lit ''op'', op_done = False, op_error = None\<rparr>
     \<lparr>remote = 1, calls = [StoresCreate (lit ''X''), upload_a, import_a]\<rparr> =
   Some (Inr \<lparr>op_name = lit ''op'', op_done = True, op_error = e\<rparr>,
     \<lparr>remote = 1, calls = [StoresCreate (lit ''X''), upload_a, import_a, poll_op]\<rparr>)"
  by (simp add: example_defs)

lemma example_upload_a:
  "upload_pdf (example_env pdfs \<lparr>bad_upload = [], bad_import = [], bad_poll = [], err = e\<rparr>) 1
     pdf_a \<lparr>remote = 0, calls = [StoresCreate (lit ''X'')]\<rparr> =
   (Inr \<lparr>file_name = lit ''files/'' @ lit ''a-520faea5''\<rparr>,
    \<lparr>remote = 1, calls = [StoresCreate (lit ''X''), upload_a]\<rparr>)"
  by (simp add: example_defs)

lemma example_import_a:
  "import_pdf (example_env pdfs \<lparr>bad_upload = [], bad_import = [], bad_poll = [], err = e\<rparr>)
     \<lparr>store_name = lit ''stores/s2''\<rparr> pdf_a \<lparr>file_name = lit ''files/'' @ lit ''a-520faea5''\<rparr>
     \<lparr>remote = 1, calls = [StoresCreate (lit ''X''), upload_a]\<rparr> =
   (Inr \<lparr>op_name = lit ''op'', op_done = False, op_error = None\<rparr>,
    \<lparr>remote = 1, calls = [StoresCreate (lit ''X''), upload_a, import_a]\<rparr>)"
  by (simp add: example_defs)

lemma wait_of_poll_steps:
  "poll_steps sv op w op' w' \<Longrightarrow> op_done op' \<Longrightarrow>
   wait_for_operation sv op w = Some (Inr op', w')"
proof (induction rule: poll_steps.induct)
  case (poll_none op w)
  then show ?case by (simp add: wait_done)
next
  case (poll_more op w op1 r op' w')
  then show ?case by (simp add: wait_not_done after_call_def)
qed

lemma poll_steps_of_wait_aux:
  "wait_for_operation sv op w = Some y \<Longrightarrow>
   (\<forall>op' w'. y = (Inr op', w') \<longrightarrow> poll_steps sv op w op' w' \<and> op_done op')"
proof (induction rule: wait_for_operation.raw_induct [rotated 1, consumes 1, case_names step])
  case (step wait sv op w y)
  show ?case
  proof (cases "op_done op")
    case True
    with step(2) show ?thesis by (auto intro: poll_none)
  next
    case False
    obtain res r where g: "operations_get sv op (remote w) = (res, r)"
      by (cases "operations_get sv op (remote w)")
    show ?thesis
    proof (cases res)
      case (Inl e)
      with step(2) False g show ?thesis
        by (auto simp: client_operations_get_def)
    next
      case (Inr op1)
      with step(2) False g have
        rest: "wait sv op1 \<lparr>remote = r, calls = calls w @ [OperationsGet op]\<rparr> = Some y"
        by (simp add: client_operations_get_def after_call_def)
      show ?thesis
      proof (intro allI impI)
        fix op' w'
        assume "y = (Inr op', w')"
        with step(1) [OF rest] have
          "poll_steps sv op1 \<lparr>remote = r, calls = calls w @ [OperationsGet op]\<rparr> op' w'"
          and fin: "op_done op'"
          by simp_all
        with False g Inr have "poll_steps sv op w op' w'"
          by (auto intro: poll_more)
        with fin show "poll_steps sv op w op' w' \<and> op_done op'" by simp
      qed
    qed
  qed
qed

lemma poll_steps_of_wait:
  "wait_for_operation sv op w = Some (Inr op', w') \<Longrightarrow> poll_steps sv op w op' w' \<and> op_done op'"
  using poll_steps_of_wait_aux by blast

text \<open>
  Claim C3, as the code has it. \<open>wait_for_operation\<close> returns only an operation whose
  completion flag is set, and it returns the operation as the service gave it, with
  whatever failure status it carries: it returns the operation \<open>op'\<close> in the state \<open>w'\<close>
  exactly when \<open>op'\<close> is complete and is what the polls of the service lead to, after
  any number of polls, with nothing but these polls done to the state. In particular
  an operation that is already complete is returned at once, and an operation that
  the first poll reports complete is returned as polled. The caller does not look at
  it: once the upload and the import submission of a file succeeded and the wait
  returned an operation, \<open>ingest_file\<close> reports the file as ingested, whatever the
  failure status of that operation.
\<close>

theorem wait_returns_terminal_operation:
  "(wait_for_operation sv op w = Some (Inr op', w')) =
     (poll_steps sv op w op' w' \<and> op_done op') \<and>
   (wait_for_operation sv op w = Some (Inr op', w') \<longrightarrow> op_done op') \<and>
   (op_done op \<longrightarrow> wait_for_operation sv op w = Some (Inr op, w)) \<and>
   (\<not> op_done op \<and> operations_get sv op (remote w) = (Inr op1, r) \<and> op_done op1 \<longrightarrow>
      wait_for_operation sv op w = Some (Inr op1, after_call w (OperationsGet op) r)) \<and>
   (upload_pdf env idx pdf w0 = (Inr f, w1) \<and> import_pdf env st pdf f w1 = (Inr op0, w2) \<and>
    wait_for_operation (svc env) op0 w2 = Some (Inr op2, w3) \<longrightarrow>
      ingest_file env st idx pdf w0 = Some (Inr (), w3))"
proof -
  have exact: "(wait_for_operation sv op w = Some (Inr op', w')) =
      (poll_steps sv op w op' w' \<and> op_done op')"
    using poll_steps_of_wait [of sv op w op' w'] wait_of_poll_steps [of sv op w op' w']
    by blast
  have polled: "\<not> op_done op \<and> operations_get sv op (remote w) = (Inr op1, r) \<and> op_done op1 \<longrightarrow>
      wait_for_operation sv op w = Some (Inr op1, after_call w (OperationsGet op) r)"
    by (simp add: wait_not_done wait_done)
  show ?thesis
    using exact wait_returns_done [of sv op w op' w'] wait_done [of op sv w] polled
      ingest_file_wait_returns [of env idx pdf w0 f w1 st op0 w2 op2 w3]
    by blast
qed

theorem wait_returns_terminal_operation_witness:
  "poll_steps (slow_service (Some (lit ''import failed'')))
     \<lparr>op_name = lit ''op'', op_done = False, op_error = None\<rparr> world0
     \<lparr>op_name = lit ''op'', op_done = True, op_error = Some (lit ''import failed'')\<rparr>
     \<lparr>remote = 1, calls = [poll_op, poll_op]\<rparr> \<and>
   wait_for_operation (slow_service (Some (lit ''import failed'')))
     \<lparr>op_name = lit ''op'', op_done = False, op_error = None\<rparr> world0 =
   Some (Inr \<lparr>op_name = lit ''op'', op_done = True, op_error = Some (lit ''import failed'')\<rparr>,
     \<lparr>remote = 1, calls = [poll_op, poll_op]\<rparr>) \<and>
   wait_for_operation (slow_service (Some (lit ''import failed'')))
     \<lparr>op_name = lit ''op'', op_done = True, op_error = Some (lit ''import failed'')\<rparr> world0 =
   Some (Inr \<lparr>op_name = lit ''op'', op_done = True, op_error = Some (lit ''import failed'')\<rparr>,
     world0) \<and>
   ingest_file (example_env [pdf_a] (no_faults\<lparr>err := Some (lit ''import failed'')\<rparr>))
     \<lparr>store_name = lit ''stores/s2''\<rparr> 1 pdf_a
     \<lparr>remote = 0, calls = [StoresCreate (lit ''X'')]\<rparr> =
   Some (Inr (), \<lparr>remote = 1, calls = [StoresCreate (lit ''X''), upload_a, import_a, poll_op]\<rparr>)"
proof -
  let ?sv = "slow_service (Some (lit ''import failed''))"
  let ?fl = "\<lparr>bad_upload = [], bad_import = [], bad_poll = [], err = Some (lit ''import failed'')\<rparr>"
  let ?env = "example_env [pdf_a] ?fl"
  let ?op = "\<lparr>op_name = lit ''op'', op_done = False, op_error = None\<rparr>"
  let ?op' = "\<lparr>op_name = lit ''op'', op_done = True, op_error = Some (lit ''import failed'')\<rparr>"
  let ?v1 = "\<lparr>remote = 1::nat, calls = [poll_op]\<rparr>"
  let ?v2 = "\<lparr>remote = 1::nat, calls = [poll_op, poll_op]\<rparr>"
  let ?w0 = "\<lparr>remote = 0::nat, calls = [StoresCreate (lit ''X'')]\<rparr>"
  let ?w1 = "\<lparr>remote = 1::nat, calls = [StoresCreate (lit ''X''), upload_a]\<rparr>"
  let ?w2 = "\<lparr>remote = 1::nat, calls = [StoresCreate (lit ''X''), upload_a, import_a]\<rparr>"
  let ?w3 = "\<lparr>remote = 1::nat, calls = [StoresCreate (lit ''X''), upload_a, import_a, poll_op]\<rparr>"
  have fl: "no_faults\<lparr>err := Some (lit ''import failed'')\<rparr> = ?fl"
    by (simp add: no_faults_def)
  have first: "operations_get ?sv ?op (remote world0) = (Inr ?op, 1)"
    by (simp add: slow_service_def world0_def)
  have second: "operations_get ?sv ?op (remote ?v1) = (Inr ?op', 1)"
    by (simp add: slow_service_def)
  have s2: "poll_steps ?sv ?op' \<lparr>remote = 1, calls = calls ?v1 @ [OperationsGet ?op]\<rparr> ?op' ?v2"
    by (simp add: poll_op_def poll_none)
  have s1: "poll_steps ?sv ?op ?v1 ?op' ?v2"
    by (rule poll_more [OF _ second s2]) simp
  then have s0: "poll_steps ?sv ?op
      \<lparr>remote = 1, calls = calls world0 @ [OperationsGet ?op]\<rparr> ?op' ?v2"
    by (simp add: poll_op_def world0_def)
  have steps: "poll_steps ?sv ?op world0 ?op' ?v2"
    by (rule poll_more [OF _ first s0]) simp
  have fin: "op_done ?op'"
    by simp
  have a: "wait_for_operation ?sv ?op world0 = Some (Inr ?op', ?v2)"
    using wait_returns_terminal_operation [of ?sv ?op world0 ?op' ?v2] steps fin by blast
  have b: "wait_for_operation ?sv ?op' world0 = Some (Inr ?op', world0)"
    using wait_returns_terminal_operation [of ?sv ?op' world0] fin by blast
  have run: "upload_pdf ?env 1 pdf_a ?w0 = (Inr \<lparr>file_name = lit ''files/'' @ lit ''a-520faea5''\<rparr>, ?w1) \<and>
      import_pdf ?env \<lparr>store_name = lit ''stores/s2''\<rparr> pdf_a
        \<lparr>file_name = lit ''files/'' @ lit ''a-520faea5''\<rparr> ?w1 = (Inr ?op, ?w2) \<and>
      wait_for_operation (svc ?env) ?op ?w2 = Some (Inr ?op', ?w3)"
    using example_upload_a example_import_a example_wait_failed by blast
  have c: "ingest_file ?env \<lparr>store_name = lit ''stores/s2''\<rparr> 1 pdf_a ?w0 = Some (Inr (), ?w3)"
    using wait_returns_terminal_operation [of "svc ?env" ?op ?w2 ?op' ?w3 ?op' 1 ?env 1 pdf_a ?w0
        "\<lparr>file_name = lit ''files/'' @ lit ''a-520faea5''\<rparr>" ?w1
        "\<lparr>store_name = lit ''stores/s2''\<rparr>" ?op ?w2 ?op' ?w3] run
    by blast
  show ?thesis
    unfolding fl using steps a b c by blast
qed

text \<open>
  Claim C3 as stated fails: the import of the only file ends with the failure status
  \<open>import failed\<close>, the waiter returns that operation, and \<open>ingest_pdfs\<close> returns the
  store name, exactly as it does when the import ends without a failure status.
\<close>

theorem import_failure_not_surfaced_counterexample:
  "wait_for_operation
     (svc (example_env [pdf_a] (no_faults\<lparr>err := Some (lit ''import failed'')\<rparr>)))
     \<lparr>op_name = lit ''op'', op_done = False, op_error = None\<rparr>
     \<lparr>remote = 1, calls = [StoresCreate (lit ''X''), upload_a, import_a]\<rparr> =
   Some (Inr \<lparr>op_name = lit ''op'', op_done = True, op_error = Some (lit ''import failed'')\<rparr>,
     \<lparr>remote = 1, calls = [StoresCreate (lit ''X''), upload_a, import_a, poll_op]\<rparr>) \<and>
   ingest_pdfs (example_env [pdf_a] (no_faults\<lparr>err := Some (lit ''import failed'')\<rparr>))
     (lit ''d'') None (lit ''X'') world0 =
   Some (Inr (Some (lit ''stores/s2'')),
     \<lparr>remote = 1, calls = [StoresCreate (lit ''X''), upload_a, import_a, poll_op]\<rparr>) \<and>
   ingest_pdfs (example_env [pdf_a] (no_faults\<lparr>err := Some (lit ''import failed'')\<rparr>))
     (lit ''d'') None (lit ''X'') world0 =
   ingest_pdfs (example_env [pdf_a] no_faults) (lit ''d'') None (lit ''X'') world0"
proof -
  let ?fl = "\<lparr>bad_upload = [], bad_import = [], bad_poll = [], err = Some (lit ''import failed'')\<rparr>"
  have fl: "no_faults\<lparr>err := Some (lit ''import failed'')\<rparr> = ?fl"
    by (simp add: no_faults_def)
  have waited: "wait_for_operation (svc (example_env [pdf_a] ?fl))
     \<lparr>op_name = lit ''op'', op_done = False, op_error = None\<rparr>
     \<lparr>remote = 1, calls = [StoresCreate (lit ''X''), upload_a, import_a]\<rparr> =
   Some (Inr \<lparr>op_name = lit ''op'', op_done = True, op_error = Some (lit ''import failed'')\<rparr>,
     \<lparr>remote = 1, calls = [StoresCreate (lit ''X''), upload_a, import_a, poll_op]\<rparr>)"
    by (rule example_wait_failed)
  have failed: "ingest_pdfs (example_env [pdf_a] ?fl) (lit ''d'') None (lit ''X'') world0 =
   Some (Inr (Some (lit ''stores/s2'')),
     \<lparr>remote = 1, calls = [StoresCreate (lit ''X''), upload_a, import_a, poll_op]\<rparr>)"
    by (rule example_run_a)
  have clean: "ingest_pdfs (example_env [pdf_a] no_faults) (lit ''d'') None (lit ''X'') world0 =
   Some (Inr (Some (lit ''stores/s2'')),
     \<lparr>remote = 1, calls = [StoresCreate (lit ''X''), upload_a, import_a, poll_op]\<rparr>)"
    unfolding no_faults_def by (rule example_run_a)
  show ?thesis
    unfolding fl by (intro conjI, rule waited, rule failed, simp only: failed clean)
qed

subsection \<open>The import submissions of a batch\<close>

lemma example_loop_a:
  "0 \<notin> set (bad_upload fl) \<Longrightarrow> 1 \<notin> set (bad_import fl) \<Longrightarrow> 1 \<notin> set (bad_poll fl) \<Longrightarrow>
   ingest_loop (example_env pdfs fl) \<lparr>store_name = lit ''stores/s2''\<rparr> 1 [pdf_a]
     \<lparr>remote = 0, calls = [StoresCreate (lit ''X'')]\<rparr> =
   Some (Inr (), \<lparr>remote = 1, calls = [StoresCreate (lit ''X''), upload_a, import_a, poll_op]\<rparr>)"
  by (simp add: ingest_file_def example_defs)

lemma example_run_ab:
  "ingest_pdfs (example_env [pdf_a, pdf_b] no_faults) (lit ''d'') None (lit ''X'') world0 =
     Some (Inr (Some (lit ''stores/s2'')),
       \<lparr>remote = 2, calls = [StoresCreate (lit ''X''), upload_a, import_a, poll_op,
          upload_b, import_b, poll_op]\<rparr>)"
  by (simp add: ingest_pdfs_def example_client example_store)
     (simp add: ingest_file_def example_defs)

lemma import_pdf_submits:
  "import_pdf env st pdf f v1 = (r, v2) \<Longrightarrow>
   import_file (svc env) (store_name st) (file_name f)
     [(lit ''source_type'', lit ''book''), (lit ''book_title'', path_stem pdf)] (remote v1) =
     (r, remote v2) \<and>
   calls v2 = calls v1 @ [ImportFile (store_name st) (file_name f)
     [(lit ''source_type'', lit ''book''), (lit ''book_title'', path_stem pdf)]]"
  by (auto simp: import_pdf_def client_defs book_metadata_def after_call_def Let_def
      split: prod.splits)

lemma ingest_file_steps:
  "ingest_file env st idx pdf v0 = Some (Inr (), v3) \<Longrightarrow>
   \<exists>f u1 op u2 op'. upload_pdf env idx pdf v0 = (Inr f, u1) \<and>
     import_pdf env st pdf f u1 = (Inr op, u2) \<and>
     wait_for_operation (svc env) op u2 = Some (Inr op', v3)"
  by (auto simp: ingest_file_def split: prod.splits sum.splits option.splits)

text \<open>
  Claim C5. In every run of \<open>ingest_pdfs\<close> that reads its credential and resolves the
  store, the store is resolved by one call, before anything else, and never again.
  Every import submission carries the name of that store and the metadata list with
  exactly the two entries \<open>source_type = book\<close> and \<open>book_title =\<close> the stem of the
  file; the submissions follow the order of the files, and when the run returns
  normally there is one for each of the N files. What is recorded is what the service
  is given: the result and the new state of an import submission are those of the
  method \<open>import_file\<close> of the service at the name of the store, the name of the
  uploaded file and this metadata list, and every file ingested went through its
  upload, the import submission of the uploaded file into the store, and the wait for
  the operation of this submission.
\<close>

theorem imports_carry_metadata_and_store:
  assumes "get_client (api_key env) = Inr k"
    and "get_or_create_store (svc env) name display_name w = (Inr st, w0)"
    and "ingest_pdfs env folder name display_name w = Some (res, w')"
  shows "(\<exists>c cs. calls w0 = calls w @ [c] \<and> resolutions [c] = [c] \<and>
           calls w' = calls w0 @ cs \<and> resolutions cs = [] \<and>
           prefix (import_args cs)
             (map (\<lambda>p. (store_name st,
                     [(lit ''source_type'', lit ''book''), (lit ''book_title'', path_stem p)]))
                (glob_pdf env folder)) \<and>
           ((\<exists>s. res = Inr s) \<longrightarrow>
              import_args cs =
                map (\<lambda>p. (store_name st,
                     [(lit ''source_type'', lit ''book''), (lit ''book_title'', path_stem p)]))
                  (glob_pdf env folder))) \<and>
         (import_pdf env st pdf f v1 = (r, v2) \<longrightarrow>
            import_file (svc env) (store_name st) (file_name f)
              [(lit ''source_type'', lit ''book''), (lit ''book_title'', path_stem pdf)]
              (remote v1) = (r, remote v2) \<and>
            calls v2 = calls v1 @ [ImportFile (store_name st) (file_name f)
              [(lit ''source_type'', lit ''book''), (lit ''book_title'', path_stem pdf)]]) \<and>
         (ingest_file env st idx pdf v0 = Some (Inr (), v3) \<longrightarrow>
            (\<exists>g u1 op u2 op'. upload_pdf env idx pdf v0 = (Inr g, u1) \<and>
               import_pdf env st pdf g u1 = (Inr op, u2) \<and>
               wait_for_operation (svc env) op u2 = Some (Inr op', v3)))"
proof -
  let ?expected = "map (\<lambda>p. (store_name st, book_metadata (path_stem p))) (glob_pdf env folder)"
  from get_or_create_store_calls [OF assms(2)] obtain c where
    c: "calls w0 = calls w @ [c]" "resolutions [c] = [c]"
    by blast
  have "\<exists>cs. calls w' = calls w0 @ cs \<and> resolutions cs = [] \<and>
          prefix (import_args cs) ?expected \<and>
          ((\<exists>s. res = Inr s) \<longrightarrow> import_args cs = ?expected)"
  proof (cases "glob_pdf env folder = []")
    case True
    with assms have "w' = w0" by (simp add: ingest_pdfs_def)
    with True show ?thesis by simp
  next
    case False
    with assms obtain r where
      loop: "ingest_loop env st 1 (glob_pdf env folder) w0 = Some (r, w')"
      and res: "(\<exists>s. res = Inr s) \<longrightarrow> r = Inr ()"
      by (auto simp: ingest_pdfs_def Let_def split: option.splits sum.splits)
    from ingest_loop_calls [OF loop] res show ?thesis by blast
  qed
  then have batch: "\<exists>c cs. calls w0 = calls w @ [c] \<and> resolutions [c] = [c] \<and>
           calls w' = calls w0 @ cs \<and> resolutions cs = [] \<and>
           prefix (import_args cs)
             (map (\<lambda>p. (store_name st,
                     [(lit ''source_type'', lit ''book''), (lit ''book_title'', path_stem p)]))
                (glob_pdf env folder)) \<and>
           ((\<exists>s. res = Inr s) \<longrightarrow>
              import_args cs =
                map (\<lambda>p. (store_name st,
                     [(lit ''source_type'', lit ''book''), (lit ''book_title'', path_stem p)]))
                  (glob_pdf env folder))"
    using c unfolding book_metadata_def by blast
  show ?thesis
    using batch import_pdf_submits [of env st pdf f v1 r v2]
      ingest_file_steps [of env st idx pdf v0 v3]
    by blast
qed

theorem imports_carry_metadata_and_store_witness:
  "get_client (api_key (example_env [pdf_a, pdf_b] no_faults)) = Inr (lit ''key'') \<and>
   get_or_create_store (svc (example_env [pdf_a, pdf_b] no_faults)) None (lit ''X'') world0 =
     (Inr \<lparr>store_name = lit ''stores/s2''\<rparr>,
      \<lparr>remote = 0, calls = [StoresCreate (lit ''X'')]\<rparr>) \<and>
   ingest_pdfs (example_env [pdf_a, pdf_b] no_faults) (lit ''d'') None (lit ''X'') world0 =
     Some (Inr (Some (lit ''stores/s2'')),
       \<lparr>remote = 2, calls = [StoresCreate (lit ''X''), upload_a, import_a, poll_op,
          upload_b, import_b, poll_op]\<rparr>) \<and>
   import_args [upload_a, import_a, poll_op, upload_b, import_b, poll_op] =
     [(lit ''stores/s2'', [(lit ''source_type'', lit ''book''), (lit ''book_title'', lit ''a'')]),
      (lit ''stores/s2'', [(lit ''source_type'', lit ''book''), (lit ''book_title'', lit ''b'')])] \<and>
   resolutions [upload_a, import_a, poll_op, upload_b, import_b, poll_op] = [] \<and>
   import_pdf (example_env [pdf_a, pdf_b] no_faults) \<lparr>store_name = lit ''stores/s2''\<rparr> pdf_a
     \<lparr>file_name = lit ''files/'' @ lit ''a-520faea5''\<rparr>
     \<lparr>remote = 1, calls = [StoresCreate (lit ''X''), upload_a]\<rparr> =
     (Inr \<lparr>op_name = lit ''op'', op_done = False, op_error = None\<rparr>,
      \<lparr>remote = 1, calls = [StoresCreate (lit ''X''), upload_a, import_a]\<rparr>) \<and>
   import_file (svc (example_env [pdf_a, pdf_b] no_faults)) (lit ''stores/s2'')
     (lit ''files/'' @ lit ''a-520faea5'')
     [(lit ''source_type'', lit ''book''), (lit ''book_title'', lit ''a'')] 1 =
     (Inr \<lparr>op_name = lit ''op'', op_done = False, op_error = None\<rparr>, 1)"
proof -
  let ?env = "example_env [pdf_a, pdf_b] no_faults"
  have submitted: "import_pdf ?env \<lparr>store_name = lit ''stores/s2''\<rparr> pdf_a
     \<lparr>file_name = lit ''files/'' @ lit ''a-520faea5''\<rparr>
     \<lparr>remote = 1, calls = [StoresCreate (lit ''X''), upload_a]\<rparr> =
     (Inr \<lparr>op_name = lit ''op'', op_done = False, op_error = None\<rparr>,
      \<lparr>remote = 1, calls = [StoresCreate (lit ''X''), upload_a, import_a]\<rparr>)"
    unfolding no_faults_def by (rule example_import_a)
  have given: "import_file (svc ?env) (lit ''stores/s2'')
     (lit ''files/'' @ lit ''a-520faea5'')
     [(lit ''source_type'', lit ''book''), (lit ''book_title'', lit ''a'')] 1 =
     (Inr \<lparr>op_name = lit ''op'', op_done = False, op_error = None\<rparr>, 1)"
    using imports_carry_metadata_and_store [OF example_client example_store example_run_ab,
        where pdf = pdf_a and f = "\<lparr>file_name = lit ''files/'' @ lit ''a-520faea5''\<rparr>"
        and ?v1.0 = "\<lparr>remote = 1, calls = [StoresCreate (lit ''X''), upload_a]\<rparr>"
        and r = "Inr \<lparr>op_name = lit ''op'', op_done = False, op_error = None\<rparr>"
        and ?v2.0 = "\<lparr>remote = 1, calls = [StoresCreate (lit ''X''), upload_a, import_a]\<rparr>"]
      submitted
    by (simp add: pdf_a_def)
  from imports_carry_metadata_and_store [OF example_client example_store example_run_ab]
  obtain c cs where
    cs: "calls \<lparr>remote = 2::nat, calls = [StoresCreate (lit ''X''), upload_a, import_a, poll_op,
          upload_b, import_b, poll_op]\<rparr> =
        calls \<lparr>remote = 0::nat, calls = [StoresCreate (lit ''X'')]\<rparr> @ cs"
      "resolutions cs = []"
      "import_args cs =
         map (\<lambda>p. (store_name \<lparr>store_name = lit ''stores/s2''\<rparr>,
                     [(lit ''source_type'', lit ''book''), (lit ''book_title'', path_stem p)]))
           (glob_pdf ?env (lit ''d''))"
    by blast
  from cs(1) have "cs = [upload_a, import_a, poll_op, upload_b, import_b, poll_op]"
    by simp
  with cs(2,3) have
    "import_args [upload_a, import_a, poll_op, upload_b, import_b, poll_op] =
     [(lit ''stores/s2'', [(lit ''source_type'', lit ''book''), (lit ''book_title'', lit ''a'')]),
      (lit ''stores/s2'', [(lit ''source_type'', lit ''book''), (lit ''book_title'', lit ''b'')])]"
    "resolutions [upload_a, import_a, poll_op, upload_b, import_b, poll_op] = []"
    by (simp_all add: example_env_def pdf_a_def pdf_b_def)
  then show ?thesis
    using example_client [of "[pdf_a, pdf_b]" no_faults]
      example_store [of "[pdf_a, pdf_b]" no_faults] example_run_ab submitted given
    by blast
qed

subsection \<open>Failure in the middle of a batch\<close>

lemma upload_pdf_grows: "upload_pdf env idx pdf w = (res, w1) \<Longrightarrow> prefix (calls w) (calls w1)"
  using upload_pdf_calls by (metis prefixI)

lemma import_pdf_grows: "import_pdf env st pdf f w = (res, w1) \<Longrightarrow> prefix (calls w) (calls w1)"
  using import_pdf_calls by (metis prefixI)

lemma wait_grows:
  "wait_for_operation sv op w = Some (res, w') \<Longrightarrow> prefix (calls w) (calls w')"
  using wait_calls by (metis prefixI)

lemma ingest_pdfs_loop_error:
  assumes "get_client (api_key env) = Inr k"
    and "get_or_create_store (svc env) name display_name w = (Inr st, w0)"
    and "glob_pdf env folder = pdfs @ pdf # rest"
    and "ingest_loop env st 1 pdfs w0 = Some (Inr (), w1)"
    and "ingest_file env st (Suc (length pdfs)) pdf w1 = Some (Inl e, w2)"
  shows "ingest_pdfs env folder name display_name w = Some (Inl e, w2)"
proof -
  have "ingest_loop env st 1 (pdfs @ pdf # rest) w0 =
      ingest_loop env st (1 + length pdfs) (pdf # rest) w1"
    using assms(4) by (rule ingest_loop_append)
  then have "ingest_loop env st 1 (pdfs @ pdf # rest) w0 = Some (Inl e, w2)"
    using assms(5) by simp
  then show ?thesis
    using assms(1-3) by (simp add: ingest_pdfs_def)
qed

text \<open>
  Claim C7. Take a run of \<open>ingest_pdfs\<close> that has read its credential, resolved the
  store and ingested the files \<open>pdfs\<close>, reaching the state \<open>w1\<close>. If then the upload of
  the next file raises, or its import submission raises, or the wait for its import
  raises, \<open>ingest_pdfs\<close> raises that exception, and the state it leaves is the one
  the failing call left: no call is made for the rest of the batch, and the calls
  made for the files before the failure stay as they were (nothing is rolled back).
\<close>

theorem failure_aborts_batch:
  assumes "get_client (api_key env) = Inr k"
    and "get_or_create_store (svc env) name display_name w = (Inr st, w0)"
    and "glob_pdf env folder = pdfs @ pdf # rest"
    and "ingest_loop env st 1 pdfs w0 = Some (Inr (), w1)"
  shows "(upload_pdf env (Suc (length pdfs)) pdf w1 = (Inl e, w2) \<longrightarrow>
            ingest_pdfs env folder name display_name w = Some (Inl e, w2) \<and>
            prefix (calls w1) (calls w2)) \<and>
         (upload_pdf env (Suc (length pdfs)) pdf w1 = (Inr f, u2) \<and>
          import_pdf env st pdf f u2 = (Inl e', u3) \<longrightarrow>
            ingest_pdfs env folder name display_name w = Some (Inl e', u3) \<and>
            prefix (calls w1) (calls u3)) \<and>
         (upload_pdf env (Suc (length pdfs)) pdf w1 = (Inr g, v2) \<and>
          import_pdf env st pdf g v2 = (Inr op, v3) \<and>
          wait_for_operation (svc env) op v3 = Some (Inl e'', v4) \<longrightarrow>
            ingest_pdfs env folder name display_name w = Some (Inl e'', v4) \<and>
            prefix (calls w1) (calls v4))"
proof (intro conjI impI)
  assume up: "upload_pdf env (Suc (length pdfs)) pdf w1 = (Inl e, w2)"
  show "ingest_pdfs env folder name display_name w = Some (Inl e, w2)"
    using assms ingest_file_upload_error [OF up] by (rule ingest_pdfs_loop_error)
  show "prefix (calls w1) (calls w2)"
    using up by (rule upload_pdf_grows)
next
  assume "upload_pdf env (Suc (length pdfs)) pdf w1 = (Inr f, u2) \<and>
          import_pdf env st pdf f u2 = (Inl e', u3)"
  then have up: "upload_pdf env (Suc (length pdfs)) pdf w1 = (Inr f, u2)"
    and im: "import_pdf env st pdf f u2 = (Inl e', u3)"
    by simp_all
  show "ingest_pdfs env folder name display_name w = Some (Inl e', u3)"
    using assms ingest_file_import_error [OF up im] by (rule ingest_pdfs_loop_error)
  show "prefix (calls w1) (calls u3)"
    using upload_pdf_grows [OF up] import_pdf_grows [OF im] by (rule prefix_order.trans)
next
  assume "upload_pdf env (Suc (length pdfs)) pdf w1 = (Inr g, v2) \<and>
          import_pdf env st pdf g v2 = (Inr op, v3) \<and>
          wait_for_operation (svc env) op v3 = Some (Inl e'', v4)"
  then have up: "upload_pdf env (Suc (length pdfs)) pdf w1 = (Inr g, v2)"
    and im: "import_pdf env st pdf g v2 = (Inr op, v3)"
    and wt: "wait_for_operation (svc env) op v3 = Some (Inl e'', v4)"
    by simp_all
  show "ingest_pdfs env folder name display_name w = Some (Inl e'', v4)"
    using assms ingest_file_wait_error [OF up im wt] by (rule ingest_pdfs_loop_error)
  have "prefix (calls w1) (calls v3)"
    using upload_pdf_grows [OF up] import_pdf_grows [OF im] by (rule prefix_order.trans)
  then show "prefix (calls w1) (calls v4)"
    using wait_grows [OF wt] by (rule prefix_order.trans)
qed

theorem failure_aborts_batch_witness:
  "ingest_loop (example_env [pdf_a, pdf_b, pdf_a] \<lparr>bad_upload = [1], bad_import = [], bad_poll = [], err = None\<rparr>) \<lparr>store_name = lit ''stores/s2''\<rparr> 1 [pdf_a] \<lparr>remote = 0, calls = [StoresCreate (lit ''X'')]\<rparr> =
     Some (Inr (), \<lparr>remote = 1, calls = [StoresCreate (lit ''X''), upload_a, import_a, poll_op]\<rparr>) \<and>
   upload_pdf (example_env [pdf_a, pdf_b, pdf_a] \<lparr>bad_upload = [1], bad_import = [], bad_poll = [], err = None\<rparr>) (Suc (length [pdf_a])) pdf_b \<lparr>remote = 1, calls = [StoresCreate (lit ''X''), upload_a, import_a, poll_op]\<rparr> =
     (Inl (RemoteError (lit ''upload failed'')), \<lparr>remote = 1, calls = [StoresCreate (lit ''X''), upload_a, import_a, poll_op, upload_b]\<rparr>) \<and>
   ingest_pdfs (example_env [pdf_a, pdf_b, pdf_a] \<lparr>bad_upload = [1], bad_import = [], bad_poll = [], err = None\<rparr>) (lit ''d'') None (lit ''X'') world0 =
     Some (Inl (RemoteError (lit ''upload failed'')), \<lparr>remote = 1, calls = [StoresCreate (lit ''X''), upload_a, import_a, poll_op, upload_b]\<rparr>) \<and>
   ingest_loop (example_env [pdf_a, pdf_b, pdf_a] \<lparr>bad_upload = [], bad_import = [2], bad_poll = [], err = None\<rparr>) \<lparr>store_name = lit ''stores/s2''\<rparr> 1 [pdf_a] \<lparr>remote = 0, calls = [StoresCreate (lit ''X'')]\<rparr> =
     Some (Inr (), \<lparr>remote = 1, calls = [StoresCreate (lit ''X''), upload_a, import_a, poll_op]\<rparr>) \<and>
   upload_pdf (example_env [pdf_a, pdf_b, pdf_a] \<lparr>bad_upload = [], bad_import = [2], bad_poll = [], err = None\<rparr>) (Suc (length [pdf_a])) pdf_b \<lparr>remote = 1, calls = [StoresCreate (lit ''X''), upload_a, import_a, poll_op]\<rparr> =
     (Inr \<lparr>file_name = lit ''files/'' @ lit ''b-520faea5''\<rparr>, \<lparr>remote = 2, calls = [StoresCreate (lit ''X''), upload_a, import_a, poll_op, upload_b]\<rparr>) \<and>
   import_pdf (example_env [pdf_a, pdf_b, pdf_a] \<lparr>bad_upload = [], bad_import = [2], bad_poll = [], err = None\<rparr>) \<lparr>store_name = lit ''stores/s2''\<rparr> pdf_b \<lparr>file_name = lit ''files/'' @ lit ''b-520faea5''\<rparr> \<lparr>remote = 2, calls = [StoresCreate (lit ''X''), upload_a, import_a, poll_op, upload_b]\<rparr> =
     (Inl (RemoteError (lit ''import refused'')), \<lparr>remote = 2, calls = [StoresCreate (lit ''X''), upload_a, import_a, poll_op, upload_b, import_b]\<rparr>) \<and>
   ingest_pdfs (example_env [pdf_a, pdf_b, pdf_a] \<lparr>bad_upload = [], bad_import = [2], bad_poll = [], err = None\<rparr>) (lit ''d'') None (lit ''X'') world0 =
     Some (Inl (RemoteError (lit ''import refused'')), \<lparr>remote = 2, calls = [StoresCreate (lit ''X''), upload_a, import_a, poll_op, upload_b, import_b]\<rparr>) \<and>
   ingest_loop (example_env [pdf_a, pdf_b, pdf_a] \<lparr>bad_upload = [], bad_import = [], bad_poll = [2], err = None\<rparr>) \<lparr>store_name = lit ''stores/s2''\<rparr> 1 [pdf_a] \<lparr>remote = 0, calls = [StoresCreate (lit ''X'')]\<rparr> =
     Some (Inr (), \<lparr>remote = 1, calls = [StoresCreate (lit ''X''), upload_a, import_a, poll_op]\<rparr>) \<and>
   upload_pdf (example_env [pdf_a, pdf_b, pdf_a] \<lparr>bad_upload = [], bad_import = [], bad_poll = [2], err = None\<rparr>) (Suc (length [pdf_a])) pdf_b \<lparr>remote = 1, calls = [StoresCreate (lit ''X''), upload_a, import_a, poll_op]\<rparr> =
     (Inr \<lparr>file_name = lit ''files/'' @ lit ''b-520faea5''\<rparr>, \<lparr>remote = 2, calls = [StoresCreate (lit ''X''), upload_a, import_a, poll_op, upload_b]\<rparr>) \<and>
   import_pdf (example_env [pdf_a, pdf_b, pdf_a] \<lparr>bad_upload = [], bad_import = [], bad_poll = [2], err = None\<rparr>) \<lparr>store_name = lit ''stores/s2''\<rparr> pdf_b \<lparr>file_name = lit ''files/'' @ lit ''b-520faea5''\<rparr> \<lparr>remote = 2, calls = [StoresCreate (lit ''X''), upload_a, import_a, poll_op, upload_b]\<rparr> =
     (Inr \<lparr>op_name = lit ''op'', op_done = False, op_error = None\<rparr>, \<lparr>remote = 2, calls = [StoresCreate (lit ''X''), upload_a, import_a, poll_op, upload_b, import_b]\<rparr>) \<and>
   wait_for_operation (svc (example_env [pdf_a, pdf_b, pdf_a] \<lparr>bad_upload = [], bad_import = [], bad_poll = [2], err = None\<rparr>)) \<lparr>op_name = lit ''op'', op_done = False, op_error = None\<rparr> \<lparr>remote = 2, calls = [StoresCreate (lit ''X''), upload_a, import_a, poll_op, upload_b, import_b]\<rparr> =
     Some (Inl (RemoteError (lit ''poll failed'')), \<lparr>remote = 2, calls = [StoresCreate (lit ''X''), upload_a, import_a, poll_op, upload_b, import_b, poll_op]\<rparr>) \<and>
   ingest_pdfs (example_env [pdf_a, pdf_b, pdf_a] \<lparr>bad_upload = [], bad_import = [], bad_poll = [2], err = None\<rparr>) (lit ''d'') None (lit ''X'') world0 =
     Some (Inl (RemoteError (lit ''poll failed'')), \<lparr>remote = 2, calls = [StoresCreate (lit ''X''), upload_a, import_a, poll_op, upload_b, import_b, poll_op]\<rparr>)"
proof -
  have gU: "glob_pdf (example_env [pdf_a, pdf_b, pdf_a] \<lparr>bad_upload = [1], bad_import = [], bad_poll = [], err = None\<rparr>) (lit ''d'') = [pdf_a] @ pdf_b # [pdf_a]"
    by (simp add: example_env_def)
  have gI: "glob_pdf (example_env [pdf_a, pdf_b, pdf_a] \<lparr>bad_upload = [], bad_import = [2], bad_poll = [], err = None\<rparr>) (lit ''d'') = [pdf_a] @ pdf_b # [pdf_a]"
    by (simp add: example_env_def)
  have gP: "glob_pdf (example_env [pdf_a, pdf_b, pdf_a] \<lparr>bad_upload = [], bad_import = [], bad_poll = [2], err = None\<rparr>) (lit ''d'') = [pdf_a] @ pdf_b # [pdf_a]"
    by (simp add: example_env_def)
  have lU: "ingest_loop (example_env [pdf_a, pdf_b, pdf_a] \<lparr>bad_upload = [1], bad_import = [], bad_poll = [], err = None\<rparr>) \<lparr>store_name = lit ''stores/s2''\<rparr> 1 [pdf_a] \<lparr>remote = 0, calls = [StoresCreate (lit ''X'')]\<rparr> =
     Some (Inr (), \<lparr>remote = 1, calls = [StoresCreate (lit ''X''), upload_a, import_a, poll_op]\<rparr>)"
    by (rule example_loop_a) simp_all
  have lI: "ingest_loop (example_env [pdf_a, pdf_b, pdf_a] \<lparr>bad_upload = [], bad_import = [2], bad_poll = [], err = None\<rparr>) \<lparr>store_name = lit ''stores/s2''\<rparr> 1 [pdf_a] \<lparr>remote = 0, calls = [StoresCreate (lit ''X'')]\<rparr> =
     Some (Inr (), \<lparr>remote = 1, calls = [StoresCreate (lit ''X''), upload_a, import_a, poll_op]\<rparr>)"
    by (rule example_loop_a) simp_all
  have lP: "ingest_loop (example_env [pdf_a, pdf_b, pdf_a] \<lparr>bad_upload = [], bad_import = [], bad_poll = [2], err = None\<rparr>) \<lparr>store_name = lit ''stores/s2''\<rparr> 1 [pdf_a] \<lparr>remote = 0, calls = [StoresCreate (lit ''X'')]\<rparr> =
     Some (Inr (), \<lparr>remote = 1, calls = [StoresCreate (lit ''X''), upload_a, import_a, poll_op]\<rparr>)"
    by (rule example_loop_a) simp_all
  have uU: "upload_pdf (example_env [pdf_a, pdf_b, pdf_a] \<lparr>bad_upload = [1], bad_import = [], bad_poll = [], err = None\<rparr>) (Suc (length [pdf_a])) pdf_b \<lparr>remote = 1, calls = [StoresCreate (lit ''X''), upload_a, import_a, poll_op]\<rparr> =
     (Inl (RemoteError (lit ''upload failed'')), \<lparr>remote = 1, calls = [StoresCreate (lit ''X''), upload_a, import_a, poll_op, upload_b]\<rparr>)"
    by (simp add: example_defs)
  have uI: "upload_pdf (example_env [pdf_a, pdf_b, pdf_a] \<lparr>bad_upload = [], bad_import = [2], bad_poll = [], err = None\<rparr>) (Suc (length [pdf_a])) pdf_b \<lparr>remote = 1, calls = [StoresCreate (lit ''X''), upload_a, import_a, poll_op]\<rparr> =
     (Inr \<lparr>file_name = lit ''files/'' @ lit ''b-520faea5''\<rparr>, \<lparr>remote = 2, calls = [StoresCreate (lit ''X''), upload_a, import_a, poll_op, upload_b]\<rparr>)"
    by (simp add: example_defs)
  have iI: "import_pdf (example_env [pdf_a, pdf_b, pdf_a] \<lparr>bad_upload = [], bad_import = [2], bad_poll = [], err = None\<rparr>) \<lparr>store_name = lit ''stores/s2''\<rparr> pdf_b \<lparr>file_name = lit ''files/'' @ lit ''b-520faea5''\<rparr> \<lparr>remote = 2, calls = [StoresCreate (lit ''X''), upload_a, import_a, poll_op, upload_b]\<rparr> =
     (Inl (RemoteError (lit ''import refused'')), \<lparr>remote = 2, calls = [StoresCreate (lit ''X''), upload_a, import_a, poll_op, upload_b, import_b]\<rparr>)"
    by (simp add: example_defs)
  have uP: "upload_pdf (example_env [pdf_a, pdf_b, pdf_a] \<lparr>bad_upload = [], bad_import = [], bad_poll = [2], err = None\<rparr>) (Suc (length [pdf_a])) pdf_b \<lparr>remote = 1, calls = [StoresCreate (lit ''X''), upload_a, import_a, poll_op]\<rparr> =
     (Inr \<lparr>file_name = lit ''files/'' @ lit ''b-520faea5''\<rparr>, \<lparr>remote = 2, calls = [StoresCreate (lit ''X''), upload_a, import_a, poll_op, upload_b]\<rparr>)"
    by (simp add: example_defs)
  have iP: "import_pdf (example_env [pdf_a, pdf_b, pdf_a] \<lparr>bad_upload = [], bad_import = [], bad_poll = [2], err = None\<rparr>) \<lparr>store_name = lit ''stores/s2''\<rparr> pdf_b \<lparr>file_name = lit ''files/'' @ lit ''b-520faea5''\<rparr> \<lparr>remote = 2, calls = [StoresCreate (lit ''X''), upload_a, import_a, poll_op, upload_b]\<rparr> =
     (Inr \<lparr>op_name = lit ''op'', op_done = False, op_error = None\<rparr>, \<lparr>remote = 2, calls = [StoresCreate (lit ''X''), upload_a, import_a, poll_op, upload_b, import_b]\<rparr>)"
    by (simp add: example_defs)
  have wP: "wait_for_operation (svc (example_env [pdf_a, pdf_b, pdf_a] \<lparr>bad_upload = [], bad_import = [], bad_poll = [2], err = None\<rparr>)) \<lparr>op_name = lit ''op'', op_done = False, op_error = None\<rparr> \<lparr>remote = 2, calls = [StoresCreate (lit ''X''), upload_a, import_a, poll_op, upload_b, import_b]\<rparr> =
     Some (Inl (RemoteError (lit ''poll failed'')), \<lparr>remote = 2, calls = [StoresCreate (lit ''X''), upload_a, import_a, poll_op, upload_b, import_b, poll_op]\<rparr>)"
    by (simp add: example_defs)
  have rU: "ingest_pdfs (example_env [pdf_a, pdf_b, pdf_a] \<lparr>bad_upload = [1], bad_import = [], bad_poll = [], err = None\<rparr>) (lit ''d'') None (lit ''X'') world0 =
     Some (Inl (RemoteError (lit ''upload failed'')), \<lparr>remote = 1, calls = [StoresCreate (lit ''X''), upload_a, import_a, poll_op, upload_b]\<rparr>)"
    using failure_aborts_batch [OF example_client example_store gU lU] uU by blast
  have rI: "ingest_pdfs (example_env [pdf_a, pdf_b, pdf_a] \<lparr>bad_upload = [], bad_import = [2], bad_poll = [], err = None\<rparr>) (lit ''d'') None (lit ''X'') world0 =
     Some (Inl (RemoteError (lit ''import refused'')), \<lparr>remote = 2, calls = [StoresCreate (lit ''X''), upload_a, import_a, poll_op, upload_b, import_b]\<rparr>)"
    using failure_aborts_batch [OF example_client example_store gI lI] uI iI by blast
  have rP: "ingest_pdfs (example_env [pdf_a, pdf_b, pdf_a] \<lparr>bad_upload = [], bad_import = [], bad_poll = [2], err = None\<rparr>) (lit ''d'') None (lit ''X'') world0 =
     Some (Inl (RemoteError (lit ''poll failed'')), \<lparr>remote = 2, calls = [StoresCreate (lit ''X''), upload_a, import_a, poll_op, upload_b, import_b, poll_op]\<rparr>)"
    using failure_aborts_batch [OF example_client example_store gP lP] uP iP wP by blast
  show ?thesis
    using lU uU rU lI uI iI rI lP uP iP wP rP by blast
qed

section \<open>Properties of the resource namer\<close>

lemma lit_file: "lit ''file'' = [102, 105, 108, 101]"
  by (simp add: lit_def)

lemma file_resource_name_unfold:
  "file_resource_name db hex val =
     (let slug = (if slug_of db val = [] then lit ''file'' else slug_of db val);
          base = take (39 - length (take 8 hex)) slug
      in (if base = [] then lit ''file'' else base) @ [45] @ take 8 hex)"
proof -
  have "max 1 (40 - int (length (take 8 hex)) - 1) = int (39 - length (take 8 hex))"
    by simp
  then have "py_slice_to (max 1 (40 - int (length (take 8 hex)) - 1)) xs =
      take (39 - length (take 8 hex)) xs" for xs :: str
    unfolding py_slice_to_def by (metis nat_int of_nat_0_le_iff)
  then show ?thesis
    by (simp add: file_resource_name_def slug_of_def Let_def)
qed

lemma slug_of_hd: "slug_of db val \<noteq> [] \<Longrightarrow> hd (slug_of db val) \<noteq> 45"
  unfolding slug_of_def py_strip_chars_def
  using strip_by_hd [of "\<lambda>c. c \<in> set [45]"] by fastforce

lemma file_resource_name_length: "length (file_resource_name db hex val) \<le> 40"
  by (simp add: file_resource_name_unfold Let_def lit_file min_def) arith

lemma file_resource_name_hd: "hd (file_resource_name db hex val) \<noteq> 45"
proof -
  let ?slug = "if slug_of db val = [] then lit ''file'' else slug_of db val"
  have nonempty: "?slug \<noteq> []" and first: "hd ?slug \<noteq> 45"
    using slug_of_hd [of db val] by (auto simp: lit_file)
  have pos: "0 < 39 - length (take 8 hex)"
    by simp
  have "take (39 - length (take 8 hex)) ?slug \<noteq> []"
    using nonempty pos by simp
  moreover have "hd (take (39 - length (take 8 hex)) ?slug) = hd ?slug"
    using pos by (simp add: hd_take)
  ultimately show ?thesis
    using first unfolding file_resource_name_unfold Let_def by (simp del: length_take)
qed

lemma file_resource_name_last:
  "hex \<noteq> [] \<Longrightarrow> \<forall>c \<in> set (take 8 hex). hex_digit c \<Longrightarrow>
   last (file_resource_name db hex val) \<noteq> 45"
proof -
  assume hex: "hex \<noteq> []" and digits: "\<forall>c \<in> set (take 8 hex). hex_digit c"
  from hex have suffix: "take 8 hex \<noteq> []" by simp
  then have "last (file_resource_name db hex val) = last (take 8 hex)"
    unfolding file_resource_name_unfold Let_def by simp
  moreover have "last (take 8 hex) \<in> set (take 8 hex)"
    using suffix by (rule last_in_set)
  ultimately show ?thesis
    using digits by (auto simp: hex_digit_def)
qed

lemma file_resource_name_placeholder:
  "slug_of db val = [] \<Longrightarrow> file_resource_name db hex val = lit ''file'' @ [45] @ take 8 hex"
  by (simp add: file_resource_name_unfold Let_def lit_file)

lemma file_resource_name_members:
  assumes "c \<in> set (file_resource_name db hex val)"
  shows "c = 45 \<or> c \<in> set (slug_of db val) \<or> c \<in> set (lit ''file'') \<or> c \<in> set (take 8 hex)"
proof -
  let ?slug = "if slug_of db val = [] then lit ''file'' else slug_of db val"
  let ?base = "take (39 - length (take 8 hex)) ?slug"
  from assms have "c \<in> set (if ?base = [] then lit ''file'' else ?base) \<or> c = 45 \<or>
      c \<in> set (take 8 hex)"
    unfolding file_resource_name_unfold Let_def by auto
  moreover have "set ?base \<subseteq> set ?slug"
    by (rule set_take_subset)
  moreover have "set ?slug \<subseteq> set (slug_of db val) \<union> set (lit ''file'')"
    by auto
  ultimately show ?thesis
    by (auto split: if_splits)
qed

lemma slug_of_chars: "x \<in> set (slug_of db val) \<Longrightarrow>
  x = 45 \<or> (isalnum db x \<and> x \<in> set (lower db val))"
proof -
  assume "x \<in> set (slug_of db val)"
  then have "x \<in> set (map (\<lambda>c. if isalnum db c then c else 45) (py_strip (lower db val)))"
    unfolding slug_of_def py_strip_chars_def using set_strip_by by blast
  then obtain y where y: "y \<in> set (py_strip (lower db val))"
    and x: "x = (if isalnum db y then y else 45)"
    by auto
  from y have "y \<in> set (lower db val)"
    unfolding py_strip_def using set_strip_by by blast
  with x show ?thesis
    by (cases "isalnum db y") auto
qed

lemma file_resource_name_chars:
  assumes "c \<in> set (file_resource_name db hex val)"
  shows "c = 45 \<or> isalnum db c \<or> c \<in> set (lit ''file'') \<or> c \<in> set (take 8 hex)"
  using file_resource_name_members [OF assms] slug_of_chars [of c db val] by blast

lemma file_resource_name_ascii:
  assumes "\<forall>c \<in> set val. c < 128" and "\<forall>c \<in> set (take 8 hex). hex_digit c"
    and "c \<in> set (file_resource_name latin1 hex val)"
  shows "spec_resource_char c"
proof -
  have low: "x \<in> set (lower latin1 val) \<Longrightarrow> x < 128 \<and> \<not> (65 \<le> x \<and> x \<le> 90)" for x
    using assms(1) by (auto simp: latin1_def latin1_lower_def)
  have slug: "x \<in> set (slug_of latin1 val) \<Longrightarrow> spec_resource_char x" for x
  proof -
    assume "x \<in> set (slug_of latin1 val)"
    from slug_of_chars [OF this] consider "x = 45"
      | "isalnum latin1 x" "x \<in> set (lower latin1 val)"
      by blast
    then show ?thesis
    proof cases
      case 1
      then show ?thesis by (simp add: spec_resource_char_def)
    next
      case 2
      with low [of x] show ?thesis
        by (auto simp: latin1_def latin1_isalnum_def spec_resource_char_def)
    qed
  qed
  have placeholder: "x \<in> set (lit ''file'') \<Longrightarrow> spec_resource_char x" for x
    by (auto simp: lit_file spec_resource_char_def)
  have suffix: "x \<in> set (take 8 hex) \<Longrightarrow> spec_resource_char x" for x
    using assms(2) by (auto simp: hex_digit_def spec_resource_char_def)
  have hyphen: "spec_resource_char 45"
    by (simp add: spec_resource_char_def)
  show ?thesis
    using file_resource_name_members [OF assms(3)] slug placeholder suffix hyphen by blast
qed

text \<open>
  Claim C4 fails on the code for titles outside ASCII. \<open>str.isalnum\<close> accepts every
  Unicode letter and digit, so such code points are kept in the name. The title
  \<open>Caf\<close> followed by the code point 233 (e with acute accent) gives a name that
  contains the code point 233, and the title made of the code point 978, an upper-case
  letter without lower-case form, gives a name that contains this upper-case letter.
  Neither is a lower-case ASCII letter, a digit or a hyphen. The other parts of the
  claim hold for every title: see \<open>file_resource_name_length\<close>,
  \<open>file_resource_name_hd\<close>, \<open>file_resource_name_last\<close>,
  \<open>file_resource_name_placeholder\<close>, and \<open>file_resource_name_ascii\<close> for the character
  set of the names of ASCII titles.
\<close>

theorem resource_name_keeps_non_ascii:
  "file_resource_name latin1 (lit ''520faea5d184416281b4809701a5177e'') (lit ''Caf'' @ [233]) =
     lit ''caf'' @ [233] @ lit ''-520faea5'' \<and>
   \<not> spec_resource_char 233 \<and>
   file_resource_name latin1_upsilon (lit ''520faea5d184416281b4809701a5177e'') [978] =
     [978] @ lit ''-520faea5'' \<and>
   \<not> spec_resource_char 978"
  by (simp add: file_resource_name_def latin1_def latin1_upsilon_def latin1_isalnum_def
      latin1_lower_def lit_def py_strip_def py_strip_chars_def strip_by_def py_isspace_def
      py_slice_to_def spec_resource_char_def)

end
